theory Spec2Isabelle
  imports Complex_Main
begin

section \<open>JavaScript values used by the driver\<close>

text \<open>
  A JavaScript string is a sequence of code units. The model uses \<^typ>\<open>string\<close> and
  reads each \<^typ>\<open>char\<close> as the code unit of the same number, so it covers the strings
  whose code units are below 0x100 (NUT variables are ASCII text).

  A JavaScript Number is an IEEE double. \<open>Num q\<close> stands for the Number that the
  engine obtains from the exact value \<open>q\<close> of a numeric literal (the double nearest to
  \<open>q\<close>, an infinity beyond the range of doubles; the sign of a zero is not kept).
  No property below depends on the magnitude of a finite number, only on the
  distinction between \<open>NaN\<close> and the rest.
\<close>

datatype number = NaN | PosInfinity | NegInfinity | Num rat

text \<open>
  \<open>VObj\<close> is a plain object (an object literal): its own properties in insertion
  order. \<open>VNative k\<close> is the built-in that a plain object inherits from
  \<open>Object.prototype\<close> under the name \<open>k\<close> (a function such as \<open>toString\<close>, or the
  prototype object itself for \<open>__proto__\<close>).
\<close>

datatype jsvalue =
    VUndefined
  | VNull
  | VBool bool
  | VNum number
  | VStr string
  | VObj "(string \<times> jsvalue) list"
  | VNative string

subsection \<open>Strings\<close>

text \<open>
  The code units below 0x100 that \<open>String.prototype.trim\<close>, \<open>parseInt\<close>,
  \<open>parseFloat\<close> and the regular expression class \<open>\s\<close> treat as white space: TAB, LF,
  VT, FF, CR, SPACE and NO-BREAK SPACE.
\<close>

definition white_space :: "char \<Rightarrow> bool" where
  "white_space c = (of_char c \<in> {9, 10, 11, 12, 13, 32, 160 :: nat})"

definition trim :: "string \<Rightarrow> string" where
  "trim s = rev (dropWhile white_space (rev (dropWhile white_space s)))"

definition startsWith :: "string \<Rightarrow> string \<Rightarrow> bool" where
  "startsWith s p = (take (length p) s = p)"

text \<open>\<open>s.split(sep)\<close> for a separator of one code unit: never an empty array.\<close>

fun split :: "char \<Rightarrow> string \<Rightarrow> string list" where
  "split sep [] = [[]]"
| "split sep (c # cs) =
     (if c = sep then [] # split sep cs
      else (case split sep cs of
              [] \<Rightarrow> [[c]]
            | w # ws \<Rightarrow> (c # w) # ws))"

text \<open>
  \<open>s.replace(/,\s*$/, "")\<close>: the leftmost comma that only white space follows up to
  the end of the string is removed together with that white space; a string with
  no such comma is returned as it is.
\<close>

fun remove_trailing_comma :: "string \<Rightarrow> string" where
  "remove_trailing_comma [] = []"
| "remove_trailing_comma (c # cs) =
     (if c = CHR '','' \<and> list_all white_space cs then []
      else c # remove_trailing_comma cs)"

subsection \<open>parseInt and parseFloat\<close>

definition decimal_digit :: "char \<Rightarrow> bool" where
  "decimal_digit c = (48 \<le> (of_char c :: nat) \<and> (of_char c :: nat) \<le> 57)"

definition digits_value :: "string \<Rightarrow> int" where
  "digits_value ds = foldl (\<lambda>a c. 10 * a + (int (of_char c) - 48)) 0 ds"

text \<open>
  An optional sign at the head of a string: whether it is a minus, and the rest.
\<close>

fun strip_sign :: "string \<Rightarrow> bool \<times> string" where
  "strip_sign [] = (False, [])"
| "strip_sign (c # cs) =
     (if c = CHR ''-'' then (True, cs)
      else if c = CHR ''+'' then (False, cs)
      else (False, c # cs))"

text \<open>
  \<open>parseInt(s, 10)\<close>: leading white space is dropped, then an optional sign, then the
  longest run of decimal digits is read; with no digit there the result is \<open>NaN\<close>.
  Radix 10 is given, so no \<open>0x\<close> prefix is recognised.
\<close>

definition parseInt10 :: "string \<Rightarrow> number" where
  "parseInt10 s =
     (let (neg, r) = strip_sign (dropWhile white_space s);
          z = takeWhile decimal_digit r
      in if z = [] then NaN
         else Num (of_int (if neg then - digits_value z else digits_value z)))"

text \<open>
  The exponent part of a decimal literal (\<open>e\<close> or \<open>E\<close>, an optional sign, at least one
  digit) at the head of a string; 0 when there is none.
\<close>

definition exponent_part :: "string \<Rightarrow> int" where
  "exponent_part r =
     (case r of
        [] \<Rightarrow> 0
      | c # cs \<Rightarrow>
          if c = CHR ''e'' \<or> c = CHR ''E'' then
            (let (neg, r') = strip_sign cs;
                 ds = takeWhile decimal_digit r'
             in if ds = [] then 0
                else if neg then - digits_value ds else digits_value ds)
          else 0)"

definition scale10 :: "rat \<Rightarrow> int \<Rightarrow> rat" where
  "scale10 q e = (if 0 \<le> e then q * 10 ^ nat e else q / 10 ^ nat (- e))"

text \<open>
  \<open>parseFloat(s)\<close>: leading white space is dropped and the longest prefix that is a
  decimal literal is read: an optional sign, then \<open>Infinity\<close>, or digits with an
  optional fraction and exponent, or a dot with digits and an optional exponent.
  With no such prefix the result is \<open>NaN\<close>.
\<close>

definition parseFloat :: "string \<Rightarrow> number" where
  "parseFloat s =
     (let (neg, r) = strip_sign (dropWhile white_space s)
      in if startsWith r ''Infinity'' then (if neg then NegInfinity else PosInfinity)
         else
           (let ip = takeWhile decimal_digit r;
                r1 = dropWhile decimal_digit r;
                dot = (r1 \<noteq> [] \<and> hd r1 = CHR ''.'');
                fp = (if dot then takeWhile decimal_digit (tl r1) else []);
                r2 = (if dot then dropWhile decimal_digit (tl r1) else r1)
            in if ip = [] \<and> fp = [] then NaN
               else
                 (let m = scale10 (of_int (digits_value (ip @ fp))) (- int (length fp));
                      q = scale10 m (exponent_part r2)
                  in Num (if neg then - q else q))))"

subsection \<open>Property access on plain objects\<close>

text \<open>
  The names a plain object inherits from \<open>Object.prototype\<close> (Node.js, the runtime of
  Homey apps).
\<close>

definition object_prototype_names :: "string list" where
  "object_prototype_names =
     [''constructor'', ''__defineGetter__'', ''__defineSetter__'', ''hasOwnProperty'',
      ''__lookupGetter__'', ''__lookupSetter__'', ''isPrototypeOf'',
      ''propertyIsEnumerable'', ''toString'', ''valueOf'', ''__proto__'',
      ''toLocaleString'']"

text \<open>\<open>o[k]\<close> on a plain object with the own properties \<open>kvs\<close>.\<close>

definition obj_get :: "(string \<times> jsvalue) list \<Rightarrow> string \<Rightarrow> jsvalue" where
  "obj_get kvs k =
     (case map_of kvs k of
        Some v \<Rightarrow> v
      | None \<Rightarrow> if k \<in> set object_prototype_names then VNative k else VUndefined)"

text \<open>
  \<open>o[k] = v\<close> on a plain object: an existing own property keeps its place in the
  order of the keys, a new one is added at the end.
\<close>

fun obj_set :: "(string \<times> jsvalue) list \<Rightarrow> string \<Rightarrow> jsvalue \<Rightarrow> (string \<times> jsvalue) list" where
  "obj_set [] k v = [(k, v)]"
| "obj_set ((k', v') # kvs) k v =
     (if k' = k then (k, v) # kvs else (k', v') # obj_set kvs k v)"


section \<open>The status translator (src/lib/Utils.js)\<close>

text \<open>\<open>blank\<close> and \<open>filled\<close>, case by case as in the source.\<close>

fun blank :: "jsvalue \<Rightarrow> bool" where
  "blank VUndefined = True"
| "blank VNull = True"
| "blank (VStr s) = (trim s = [])"
| "blank (VBool b) = False"
| "blank (VNum n) = False"
| "blank (VObj kvs) = (map fst kvs = [])"
| "blank (VNative k) = (k = ''__proto__'')"

definition filled :: "jsvalue \<Rightarrow> bool" where
  "filled v = (\<not> blank v)"

text \<open>
  The raw telemetry: the object that \<open>GetUPSVars\<close> resolves to, a string for each
  variable the UPS reports. \<open>body[k]\<close> is undefined for a variable that is not there.
\<close>

type_synonym raw = "string \<Rightarrow> string option"

definition body_get :: "raw \<Rightarrow> string \<Rightarrow> jsvalue" where
  "body_get body k = (case body k of None \<Rightarrow> VUndefined | Some s \<Rightarrow> VStr s)"

record status =
  "values" :: "(string \<times> jsvalue) list"
  capabilities :: "string list"

definition STATE_TYPES :: "(string \<times> string) list" where
  "STATE_TYPES =
     [(''OL'', ''Online''),
      (''OB'', ''On Battery''),
      (''LB'', ''Low Battery''),
      (''HB'', ''High Battery''),
      (''RB'', ''Battery Needs Replaced''),
      (''CHRG'', ''Battery Charging''),
      (''DISCHRG'', ''Battery Discharging''),
      (''BYPASS'', ''Bypass Active''),
      (''CAL'', ''Runtime Calibration''),
      (''OFF'', ''Offline''),
      (''OVER'', ''Overloaded''),
      (''TRIM'', ''Trimming Voltage''),
      (''BOOST'', ''Boosting Voltage''),
      (''FSD'', ''Forced Shutdown''),
      (''ALARM'', ''Alarm'')]"

text \<open>
  The text that the template literal puts for \<open>STATE_TYPES[word]\<close>: the label of an own
  key; for a word that names a member inherited from \<open>Object.prototype\<close>, the text of
  that built-in (as Node.js prints it); and \<open>undefined\<close> for any other word.
\<close>

definition state_text :: "string \<Rightarrow> string" where
  "state_text word =
     (case map_of STATE_TYPES word of
        Some label \<Rightarrow> label
      | None \<Rightarrow>
          if word \<in> set object_prototype_names then
            (if word = ''__proto__'' then ''[object Object]''
             else if word = ''constructor'' then ''function Object() { [native code] }''
             else ''function '' @ word @ ''() { [native code] }'')
          else ''undefined'')"

text \<open>Lines 100 to 106: the readable status of a filled status string.\<close>

definition readableStatus :: "string \<Rightarrow> string" where
  "readableStatus s =
     remove_trailing_comma
       (foldl (\<lambda>acc word. acc @ state_text word @ '', '') [] (split (CHR '' '') s))"

text \<open>
  The three forms of a field of \<open>result.values\<close>:
  \<open>filled(body[k]) ? body[k] : null\<close>, and the same with \<open>parseInt(body[k], 10)\<close> or
  \<open>parseFloat(body[k])\<close> in place of \<open>body[k]\<close>.
\<close>

definition string_field :: "raw \<Rightarrow> string \<Rightarrow> jsvalue" where
  "string_field body k = (if filled (body_get body k) then body_get body k else VNull)"

definition int_of :: "jsvalue \<Rightarrow> jsvalue" where
  "int_of v = (case v of VStr s \<Rightarrow> VNum (parseInt10 s) | _ \<Rightarrow> VNum NaN)"

definition float_of :: "jsvalue \<Rightarrow> jsvalue" where
  "float_of v = (case v of VStr s \<Rightarrow> VNum (parseFloat s) | _ \<Rightarrow> VNum NaN)"

definition int_field :: "raw \<Rightarrow> string \<Rightarrow> jsvalue" where
  "int_field body k = (if filled (body_get body k) then int_of (body_get body k) else VNull)"

definition float_field :: "raw \<Rightarrow> string \<Rightarrow> jsvalue" where
  "float_field body k = (if filled (body_get body k) then float_of (body_get body k) else VNull)"

text \<open>Lines 111 to 124: the capabilities that one entry of \<open>result.values\<close> pushes.\<close>

definition notCapabilities :: "string list" where
  "notCapabilities = [''name'', ''id'']"

definition entry_capabilities :: "string \<times> jsvalue \<Rightarrow> string list" where
  "entry_capabilities e =
     (case e of (key, v) \<Rightarrow>
        if filled v \<and> key \<notin> set notCapabilities then
          (case v of
             VObj kvs \<Rightarrow> map (\<lambda>(subKey, subValue). key @ ''.'' @ subKey)
                           (filter (\<lambda>(subKey, subValue). filled subValue) kvs)
           | VNative k \<Rightarrow> []
           | _ \<Rightarrow> [key])
        else [])"

text \<open>Lines 77 to 89: the object literal \<open>result.values\<close>.\<close>

definition initial_values :: "raw \<Rightarrow> (string \<times> jsvalue) list" where
  "initial_values body =
     [(''name'', string_field body ''ups.model''),
      (''measure_battery'', int_field body ''battery.charge''),
      (''measure_battery_runtime'', int_field body ''battery.runtime''),
      (''measure_temperature'', float_field body ''battery.temperature''),
      (''id'', string_field body ''ups.serial''),
      (''measure_voltage'',
         VObj [(''input'', int_field body ''input.voltage''),
               (''output'', int_field body ''output.voltage'')]),
      (''status'', string_field body ''ups.status''),
      (''alarm_status'', VBool False)]"

text \<open>Lines 91 to 97: the two fields that are added only when their source is filled.\<close>

definition add_measure_load :: "raw \<Rightarrow> (string \<times> jsvalue) list \<Rightarrow> (string \<times> jsvalue) list" where
  "add_measure_load body vs =
     (if filled (body_get body ''ups.load'')
      then obj_set vs ''measure_load'' (int_of (body_get body ''ups.load''))
      else vs)"

definition add_measure_battery_voltage ::
  "raw \<Rightarrow> (string \<times> jsvalue) list \<Rightarrow> (string \<times> jsvalue) list" where
  "add_measure_battery_voltage body vs =
     (if filled (body_get body ''battery.voltage'')
      then obj_set vs ''measure_battery_voltage'' (float_of (body_get body ''battery.voltage''))
      else vs)"

text \<open>
  Lines 99 to 109: a filled \<open>values.status\<close> (a string, by line 87) sets \<open>alarm_status\<close>
  and is replaced by its readable form.
\<close>

definition readable_values :: "(string \<times> jsvalue) list \<Rightarrow> (string \<times> jsvalue) list" where
  "readable_values vs =
     (case obj_get vs ''status'' of
        VStr s \<Rightarrow>
          if filled (VStr s)
          then obj_set (obj_set vs ''alarm_status'' (VBool (\<not> startsWith s ''OL'')))
                 ''status'' (VStr (readableStatus s))
          else vs
      | _ \<Rightarrow> vs)"

definition parseUPSStatus :: "raw \<Rightarrow> status" where
  "parseUPSStatus body =
     (let vs = readable_values
                 (add_measure_battery_voltage body
                    (add_measure_load body (initial_values body)))
      in \<lparr> values = vs, capabilities = concat (map entry_capabilities vs) \<rparr>)"

section \<open>The device (src/drivers/ups/device.js)\<close>

subsection \<open>Exceptions and the JavaScript engine\<close>

text \<open>
  What a statement can throw and a promise can be rejected with: an \<open>Error\<close> object
  (its \<open>name\<close> and its \<open>message\<close>), or a string.
\<close>

datatype js_error = Error string string | Thrown_string string

text \<open>
  The parts of the engine that the device code reaches and that are left open:
  what reading a property of a value that is not a plain object gives (a string,
  a number, a boolean or a built-in), and the message of the \<open>TypeError\<close> for reading
  a property of undefined or null.
\<close>

record engine =
  prim_member :: "jsvalue \<Rightarrow> string \<Rightarrow> js_error + jsvalue"
  type_error_message :: "jsvalue \<Rightarrow> string \<Rightarrow> string"

text \<open>\<open>base[k]\<close>.\<close>

definition get_member :: "engine \<Rightarrow> jsvalue \<Rightarrow> string \<Rightarrow> js_error + jsvalue" where
  "get_member eng base k =
     (case base of
        VUndefined \<Rightarrow> Inl (Error ''TypeError'' (type_error_message eng base k))
      | VNull \<Rightarrow> Inl (Error ''TypeError'' (type_error_message eng base k))
      | VObj kvs \<Rightarrow> Inr (obj_get kvs k)
      | _ \<Rightarrow> prim_member eng base k)"

text \<open>\<open>err.message || err\<close>, as the template literal of line 50 prints it.\<close>

fun message_or_err :: "js_error \<Rightarrow> string" where
  "message_or_err (Error name message) = (if message \<noteq> [] then message else name)"
| "message_or_err (Thrown_string s) = s"

subsection \<open>The host platform and the NUT client\<close>

datatype host_call =
    AddCapability string
  | RemoveCapability string
  | SetStoreValue_first_run bool
  | SetCapabilityValue string jsvalue
  | SetAvailable
  | SetUnavailable string

datatype nut_call = Start | SetUsername | SetPassword | GetUPSVars | Close

datatype availability = Available | Unavailable string

text \<open>
  Modelled from the spec: the Homey \<open>Device\<close> base class and \<open>lib/node-nut\<close> are not
  part of the sources. The state of one device as the spec's interfaces give it: the
  capabilities the live device exposes, the two store entries \<open>first_run\<close> and
  \<open>capabilities\<close> (\<open>None\<close> when unset), the availability, and the calls made so far to
  the host and to the connection, oldest first.
\<close>

record device =
  live_capabilities :: "string list"
  store_first_run :: "bool option"
  store_capabilities :: "string list option"
  available :: availability
  host_calls :: "host_call list"
  nut_calls :: "nut_call list"

text \<open>
  Modelled from the spec: the host's operations (existence check, add, remove and list
  of capabilities, get and set of store entries, set of a capability value, set of the
  availability). A capability value write is recorded as attempted; what the host
  does with the value, and a rejection (caught and logged by \<open>updateValue\<close>), are the
  host's.
\<close>

definition hasCapability :: "device \<Rightarrow> string \<Rightarrow> bool" where
  "hasCapability d c = (c \<in> set (live_capabilities d))"

definition addCapability :: "string \<Rightarrow> device \<Rightarrow> device" where
  "addCapability c d =
     d\<lparr> live_capabilities := live_capabilities d @ [c],
        host_calls := host_calls d @ [AddCapability c] \<rparr>"

definition removeCapability :: "string \<Rightarrow> device \<Rightarrow> device" where
  "removeCapability c d =
     d\<lparr> live_capabilities := removeAll c (live_capabilities d),
        host_calls := host_calls d @ [RemoveCapability c] \<rparr>"

definition getCapabilities :: "device \<Rightarrow> string list" where
  "getCapabilities d = live_capabilities d"

definition setStoreValue_first_run :: "bool \<Rightarrow> device \<Rightarrow> device" where
  "setStoreValue_first_run b d =
     d\<lparr> store_first_run := Some b,
        host_calls := host_calls d @ [SetStoreValue_first_run b] \<rparr>"

definition setCapabilityValue :: "string \<Rightarrow> jsvalue \<Rightarrow> device \<Rightarrow> device" where
  "setCapabilityValue c v d = d\<lparr> host_calls := host_calls d @ [SetCapabilityValue c v] \<rparr>"

definition setAvailable :: "device \<Rightarrow> device" where
  "setAvailable d = d\<lparr> available := Available, host_calls := host_calls d @ [SetAvailable] \<rparr>"

definition setUnavailable :: "string \<Rightarrow> device \<Rightarrow> device" where
  "setUnavailable reason d =
     d\<lparr> available := Unavailable reason,
        host_calls := host_calls d @ [SetUnavailable reason] \<rparr>"

text \<open>
  Modelled from the spec: what the NUT client does during one tick. \<open>start\<close>,
  \<open>SetUsername\<close> and \<open>SetPassword\<close> succeed (\<open>None\<close>) or fail with an error;
  \<open>GetUPSVars\<close> fails or resolves to the raw telemetry; \<open>close\<close> does not throw.
\<close>

record nut =
  start_result :: "js_error option"
  SetUsername_result :: "js_error option"
  SetPassword_result :: "js_error option"
  GetUPSVars_result :: "js_error + raw"

definition nut_call :: "nut_call \<Rightarrow> device \<Rightarrow> device" where
  "nut_call c d = d\<lparr> nut_calls := nut_calls d @ [c] \<rparr>"

subsection \<open>setCapabilities and updateValue\<close>

text \<open>\<open>updateValue\<close>: the log line, then the write, whose rejection is caught.\<close>

definition updateValue :: "string \<Rightarrow> jsvalue \<Rightarrow> device \<Rightarrow> device" where
  "updateValue capability v d = setCapabilityValue capability v d"

text \<open>\<open>x != null\<close>.\<close>

definition not_nullish :: "jsvalue \<Rightarrow> bool" where
  "not_nullish v = (v \<noteq> VUndefined \<and> v \<noteq> VNull)"

text \<open>Lines 69 to 78: the two dynamic capabilities.\<close>

definition add_dynamic :: "status \<Rightarrow> string \<Rightarrow> device \<Rightarrow> device" where
  "add_dynamic st c d =
     (if not_nullish (obj_get (values st) c) \<and> \<not> hasCapability d c
      then addCapability c d else d)"

text \<open>
  Lines 89 to 94: the loop over the capabilities of the live device. Reading
  \<open>includes\<close> of an unset \<open>deviceCapabilities\<close> throws; the state reached by then is
  returned with the error.
\<close>

fun remove_unsupported ::
  "engine \<Rightarrow> string list option \<Rightarrow> string list \<Rightarrow> device \<Rightarrow> js_error option \<times> device" where
  "remove_unsupported eng deviceCapabilities [] d = (None, d)"
| "remove_unsupported eng deviceCapabilities (capability # rest) d =
     (case deviceCapabilities of
        None \<Rightarrow> (Some (Error ''TypeError'' (type_error_message eng VUndefined ''includes'')), d)
      | Some known \<Rightarrow>
          remove_unsupported eng deviceCapabilities rest
            (if capability \<notin> set known then removeCapability capability d else d))"

text \<open>
  \<open>Array.from(new Set(xs))\<close>: the elements of \<open>xs\<close> in the order of their first
  occurrence.
\<close>

fun set_add_all :: "string list \<Rightarrow> string list \<Rightarrow> string list" where
  "set_add_all acc [] = acc"
| "set_add_all acc (x # xs) = set_add_all (if x \<in> set acc then acc else acc @ [x]) xs"

definition array_from_set :: "string list \<Rightarrow> string list" where
  "array_from_set xs = set_add_all [] xs"

text \<open>Lines 98 to 105: the merged list, a local variable, and the list of line 105.\<close>

definition merged_capabilities :: "status \<Rightarrow> string list option \<Rightarrow> string list option" where
  "merged_capabilities st deviceCapabilities =
     (case deviceCapabilities of
        None \<Rightarrow> Some (capabilities st)
      | Some known \<Rightarrow> Some (array_from_set (known @ capabilities st)))"

definition capabilityList :: "status \<Rightarrow> string list option \<Rightarrow> string list" where
  "capabilityList st deviceCapabilities =
     (case merged_capabilities st deviceCapabilities of
        None \<Rightarrow> capabilities st
      | Some merged \<Rightarrow> merged)"

text \<open>
  Lines 107 to 114: the capability name and the value that one element of the list
  is written with, or the error of reading a subfield of undefined or null.
\<close>

definition resolve :: "engine \<Rightarrow> status \<Rightarrow> string \<Rightarrow> js_error + string \<times> jsvalue" where
  "resolve eng st capability =
     (let parts = split (CHR ''.'') capability
      in if length parts > 1 then
           (let capabilityName = hd parts;
                subCapabilityName = last parts
            in case get_member eng (obj_get (values st) capabilityName) subCapabilityName of
                 Inl e \<Rightarrow> Inl e
               | Inr v \<Rightarrow> Inr (capabilityName @ ''.'' @ subCapabilityName, v))
         else Inr (capability, obj_get (values st) capability))"

fun update_values ::
  "engine \<Rightarrow> status \<Rightarrow> string list \<Rightarrow> device \<Rightarrow> js_error option \<times> device" where
  "update_values eng st [] d = (None, d)"
| "update_values eng st (capability # rest) d =
     (case resolve eng st capability of
        Inl e \<Rightarrow> (Some e, d)
      | Inr (name, v) \<Rightarrow> update_values eng st rest (updateValue name v d))"

text \<open>
  \<open>setCapabilities\<close>: the error it throws, if any, and the state of the device when it
  returns or throws.
\<close>

definition setCapabilities :: "engine \<Rightarrow> status \<Rightarrow> device \<Rightarrow> js_error option \<times> device" where
  "setCapabilities eng st d =
     (let d1 = add_dynamic st ''measure_load'' d;
          d2 = add_dynamic st ''measure_battery_voltage'' d1;
          firstRun = store_first_run d2;
          deviceCapabilities = store_capabilities d2;
          (thrown, d3) =
            (if firstRun = Some True then
               (case remove_unsupported eng deviceCapabilities (getCapabilities d2) d2 of
                  (Some e, d') \<Rightarrow> (Some e, d')
                | (None, d') \<Rightarrow> (None, setStoreValue_first_run False d'))
             else (None, d2))
      in case thrown of
           Some e \<Rightarrow> (Some e, d3)
         | None \<Rightarrow> update_values eng st (capabilityList st deviceCapabilities) d3)"

subsection \<open>getDeviceData\<close>

text \<open>
  Lines 37 to 46, the body of the \<open>try\<close>: the error that ends it early, if any, and the
  state reached.
\<close>

definition try_body :: "engine \<Rightarrow> nut \<Rightarrow> device \<Rightarrow> js_error option \<times> device" where
  "try_body eng n d =
     (let d1 = nut_call Start d
      in case start_result n of
           Some e \<Rightarrow> (Some e, d1)
         | None \<Rightarrow>
             (let d2 = nut_call SetUsername d1
              in case SetUsername_result n of
                   Some e \<Rightarrow> (Some e, d2)
                 | None \<Rightarrow>
                     (let d3 = nut_call SetPassword d2
                      in case SetPassword_result n of
                           Some e \<Rightarrow> (Some e, d3)
                         | None \<Rightarrow>
                             (let d4 = nut_call GetUPSVars d3
                              in case GetUPSVars_result n of
                                   Inl e \<Rightarrow> (Some e, d4)
                                 | Inr res \<Rightarrow>
                                     (case setCapabilities eng (parseUPSStatus res) d4 of
                                        (Some e, d5) \<Rightarrow> (Some e, d5)
                                      | (None, d5) \<Rightarrow> (None, setAvailable d5))))))"

text \<open>
  \<open>getDeviceData\<close>: \<open>try\<close>, \<open>catch\<close>, \<open>finally\<close>. The first component is the error that
  leaves the tick, if any.
\<close>

definition getDeviceData :: "engine \<Rightarrow> nut \<Rightarrow> device \<Rightarrow> js_error option \<times> device" where
  "getDeviceData eng n d =
     (let (thrown, d1) = try_body eng n d;
          d2 = (case thrown of
                  None \<Rightarrow> d1
                | Some err \<Rightarrow> setUnavailable (''Connection error: '' @ message_or_err err) d1)
      in (None, nut_call Close d2))"

section \<open>The specification's wording of the readable status\<close>

text \<open>\<open>xs.join(sep)\<close>: the elements in order, \<open>sep\<close> between neighbours only.\<close>

fun join :: "string \<Rightarrow> string list \<Rightarrow> string" where
  "join sep [] = []"
| "join sep [x] = x"
| "join sep (x # y # ys) = x @ sep @ join sep (y # ys)"

text \<open>
  The readable status in the words of the specification: the tokens between single
  spaces, each mapped through the table, an unknown token to the empty label, joined
  with a comma and a space.
\<close>

definition label_spec :: "string \<Rightarrow> string" where
  "label_spec word = (case map_of STATE_TYPES word of Some label \<Rightarrow> label | None \<Rightarrow> [])"

definition readable_spec :: "string \<Rightarrow> string" where
  "readable_spec s = join '', '' (map label_spec (split (CHR '' '') s))"

section \<open>Concrete inputs\<close>

text \<open>
  An engine for evaluating the device code on inputs that never read a property of
  a string, a number or a boolean.
\<close>

definition sample_engine :: engine where
  "sample_engine =
     \<lparr> prim_member = (\<lambda>base k. Inr VUndefined),
       type_error_message = (\<lambda>base k. ''Cannot read properties of undefined'') \<rparr>"

text \<open>
  A device as \<open>onInit\<close> leaves it, with the given live capabilities and store entries
  and no call recorded yet.
\<close>

definition initialized_device :: "string list \<Rightarrow> bool option \<Rightarrow> string list option \<Rightarrow> device" where
  "initialized_device live first_run known =
     \<lparr> live_capabilities = live,
       store_first_run = first_run,
       store_capabilities = known,
       available = Unavailable ''Initializing...'',
       host_calls = [],
       nut_calls = [] \<rparr>"

section \<open>Lemmas about the translator and the device\<close>

lemma map_of_obj_set: "map_of (obj_set kvs k v) = (map_of kvs)(k \<mapsto> v)"
  by (induction kvs k v rule: obj_set.induct) (auto simp: fun_eq_iff)

lemma obj_get_obj_set:
  "obj_get (obj_set kvs k v) k' = (if k' = k then v else obj_get kvs k')"
  by (simp add: obj_get_def map_of_obj_set)

lemma keys_obj_set:
  "map fst (obj_set kvs k v) = (if k \<in> set (map fst kvs) then map fst kvs else map fst kvs @ [k])"
  by (induction kvs k v rule: obj_set.induct) auto

lemma values_parseUPSStatus:
  "values (parseUPSStatus body) =
     readable_values (add_measure_battery_voltage body (add_measure_load body (initial_values body)))"
  by (simp add: parseUPSStatus_def Let_def)

lemma capabilities_parseUPSStatus:
  "capabilities (parseUPSStatus body) = concat (map entry_capabilities (values (parseUPSStatus body)))"
  by (simp add: parseUPSStatus_def Let_def)

lemma keys_initial_values:
  "map fst (initial_values body) =
     [''name'', ''measure_battery'', ''measure_battery_runtime'', ''measure_temperature'',
      ''id'', ''measure_voltage'', ''status'', ''alarm_status'']"
  by (simp add: initial_values_def)

lemma get_initial_values:
  "obj_get (initial_values body) ''name'' = string_field body ''ups.model''"
  "obj_get (initial_values body) ''measure_battery'' = int_field body ''battery.charge''"
  "obj_get (initial_values body) ''measure_battery_runtime'' = int_field body ''battery.runtime''"
  "obj_get (initial_values body) ''measure_temperature'' = float_field body ''battery.temperature''"
  "obj_get (initial_values body) ''id'' = string_field body ''ups.serial''"
  "obj_get (initial_values body) ''measure_voltage'' =
     VObj [(''input'', int_field body ''input.voltage''), (''output'', int_field body ''output.voltage'')]"
  "obj_get (initial_values body) ''status'' = string_field body ''ups.status''"
  "obj_get (initial_values body) ''alarm_status'' = VBool False"
  by (simp_all add: initial_values_def obj_get_def)

lemma get_add_measure_load:
  "k \<noteq> ''measure_load'' \<Longrightarrow> obj_get (add_measure_load body vs) k = obj_get vs k"
  by (simp add: add_measure_load_def obj_get_obj_set)

lemma get_add_measure_battery_voltage:
  "k \<noteq> ''measure_battery_voltage'' \<Longrightarrow> obj_get (add_measure_battery_voltage body vs) k = obj_get vs k"
  by (simp add: add_measure_battery_voltage_def obj_get_obj_set)

lemma get_status_before:
  "obj_get (add_measure_battery_voltage body (add_measure_load body (initial_values body))) ''status''
     = string_field body ''ups.status''"
  by (simp add: get_add_measure_load get_add_measure_battery_voltage get_initial_values)

lemma alarm:
  "obj_get (values (parseUPSStatus body)) ''alarm_status'' =
     VBool (case body ''ups.status'' of None \<Rightarrow> False
            | Some s \<Rightarrow> filled (VStr s) \<and> \<not> startsWith s ''OL'')"
proof -
  let ?vs = "add_measure_battery_voltage body (add_measure_load body (initial_values body))"
  have a: "obj_get ?vs ''alarm_status'' = VBool False"
    by (simp add: get_add_measure_load get_add_measure_battery_voltage get_initial_values)
  show ?thesis
    unfolding values_parseUPSStatus readable_values_def get_status_before
    by (simp add: string_field_def body_get_def obj_get_obj_set a filled_def split: option.splits)
qed

lemma keys_obj_set_present:
  "k \<in> set (map fst kvs) \<Longrightarrow> map fst (obj_set kvs k v) = map fst kvs"
  by (simp add: keys_obj_set)

lemma keys_readable_values:
  "''status'' \<in> set (map fst vs) \<Longrightarrow> ''alarm_status'' \<in> set (map fst vs) \<Longrightarrow>
   map fst (readable_values vs) = map fst vs"
  by (simp add: readable_values_def keys_obj_set_present split: jsvalue.splits)

lemma keys_add_measure_load:
  "''measure_load'' \<notin> set (map fst vs) \<Longrightarrow>
   map fst (add_measure_load body vs) =
     map fst vs @ (if filled (body_get body ''ups.load'') then [''measure_load''] else [])"
  by (simp add: add_measure_load_def keys_obj_set)

lemma keys_add_measure_battery_voltage:
  "''measure_battery_voltage'' \<notin> set (map fst vs) \<Longrightarrow>
   map fst (add_measure_battery_voltage body vs) =
     map fst vs @ (if filled (body_get body ''battery.voltage'')
                   then [''measure_battery_voltage''] else [])"
  by (simp add: add_measure_battery_voltage_def keys_obj_set)

lemma keys_parseUPSStatus:
  "map fst (values (parseUPSStatus body)) =
     [''name'', ''measure_battery'', ''measure_battery_runtime'', ''measure_temperature'',
      ''id'', ''measure_voltage'', ''status'', ''alarm_status'']
     @ (if filled (body_get body ''ups.load'') then [''measure_load''] else [])
     @ (if filled (body_get body ''battery.voltage'') then [''measure_battery_voltage''] else [])"
proof -
  let ?v1 = "add_measure_load body (initial_values body)"
  have k1: "map fst ?v1 = map fst (initial_values body)
              @ (if filled (body_get body ''ups.load'') then [''measure_load''] else [])"
    by (rule keys_add_measure_load) (simp add: keys_initial_values)
  have k2: "map fst (add_measure_battery_voltage body ?v1) = map fst ?v1
              @ (if filled (body_get body ''battery.voltage'') then [''measure_battery_voltage''] else [])"
    by (rule keys_add_measure_battery_voltage) (simp add: k1 keys_initial_values)
  have "map fst (readable_values (add_measure_battery_voltage body ?v1))
          = map fst (add_measure_battery_voltage body ?v1)"
    by (rule keys_readable_values) (simp_all add: k2 k1 keys_initial_values)
  then show ?thesis
    by (simp add: values_parseUPSStatus k2 k1 keys_initial_values)
qed

lemma get_readable_values:
  "k \<noteq> ''status'' \<Longrightarrow> k \<noteq> ''alarm_status'' \<Longrightarrow> obj_get (readable_values vs) k = obj_get vs k"
  by (simp add: readable_values_def obj_get_obj_set split: jsvalue.splits)

lemma entry_capabilities_key:
  "c \<in> set (entry_capabilities (k, v)) \<Longrightarrow> CHR ''.'' \<notin> set c \<Longrightarrow> c = k"
  by (auto simp: entry_capabilities_def split: if_splits jsvalue.splits)

lemma obj_get_mem:
  "k \<in> set (map fst kvs) \<Longrightarrow> (k, obj_get kvs k) \<in> set kvs"
proof -
  assume "k \<in> set (map fst kvs)"
  then obtain v where "map_of kvs k = Some v"
    by (metis map_of_eq_None_iff not_None_eq set_map)
  then show ?thesis
    by (simp add: obj_get_def map_of_SomeD)
qed

lemma get_measure_load:
  "obj_get (values (parseUPSStatus body)) ''measure_load'' =
     (if filled (body_get body ''ups.load'') then int_of (body_get body ''ups.load'') else VUndefined)"
proof -
  have "obj_get (initial_values body) ''measure_load'' = VUndefined"
    by (simp add: initial_values_def obj_get_def object_prototype_names_def)
  then show ?thesis
    by (simp add: values_parseUPSStatus get_readable_values get_add_measure_battery_voltage
        add_measure_load_def obj_get_obj_set)
qed

lemma get_measure_battery_voltage:
  "obj_get (values (parseUPSStatus body)) ''measure_battery_voltage'' =
     (if filled (body_get body ''battery.voltage'') then float_of (body_get body ''battery.voltage'')
      else VUndefined)"
proof -
  have "obj_get (initial_values body) ''measure_battery_voltage'' = VUndefined"
    by (simp add: initial_values_def obj_get_def object_prototype_names_def)
  then have "obj_get (add_measure_load body (initial_values body)) ''measure_battery_voltage'' = VUndefined"
    by (simp add: get_add_measure_load)
  then show ?thesis
    by (simp add: values_parseUPSStatus get_readable_values
        add_measure_battery_voltage_def obj_get_obj_set)
qed

lemma int_of_filled: "entry_capabilities (k, int_of v) = (if k \<in> set notCapabilities then [] else [k])"
  by (simp add: entry_capabilities_def int_of_def filled_def split: jsvalue.splits)

lemma float_of_filled: "entry_capabilities (k, float_of v) = (if k \<in> set notCapabilities then [] else [k])"
  by (simp add: entry_capabilities_def float_of_def filled_def split: jsvalue.splits)

lemma undotted_capability:
  assumes "CHR ''.'' \<notin> set c" "c \<in> set (capabilities (parseUPSStatus body))"
  shows "c \<in> set (map fst (values (parseUPSStatus body)))"
proof -
  from assms(2) obtain e where e: "e \<in> set (values (parseUPSStatus body))" "c \<in> set (entry_capabilities e)"
    by (auto simp: capabilities_parseUPSStatus)
  obtain k v where kv: "e = (k, v)" by (cases e)
  with e assms(1) have "c = k" by (auto dest: entry_capabilities_key)
  with e kv show ?thesis by force
qed

lemma measure_load_capability:
  "''measure_load'' \<in> set (capabilities (parseUPSStatus body)) \<longleftrightarrow> filled (body_get body ''ups.load'')"
proof
  assume "''measure_load'' \<in> set (capabilities (parseUPSStatus body))"
  then have "''measure_load'' \<in> set (map fst (values (parseUPSStatus body)))"
    by (rule undotted_capability [rotated]) simp
  then show "filled (body_get body ''ups.load'')"
    by (simp add: keys_parseUPSStatus split: if_splits)
next
  assume f: "filled (body_get body ''ups.load'')"
  then have "''measure_load'' \<in> set (map fst (values (parseUPSStatus body)))"
    by (simp add: keys_parseUPSStatus)
  then have "(''measure_load'', obj_get (values (parseUPSStatus body)) ''measure_load'')
               \<in> set (values (parseUPSStatus body))"
    by (rule obj_get_mem)
  moreover have "entry_capabilities (''measure_load'', obj_get (values (parseUPSStatus body)) ''measure_load'')
                   = [''measure_load'']"
    using f by (simp add: get_measure_load int_of_filled notCapabilities_def)
  ultimately show "''measure_load'' \<in> set (capabilities (parseUPSStatus body))"
    unfolding capabilities_parseUPSStatus set_concat by force
qed

lemma measure_battery_voltage_capability:
  "''measure_battery_voltage'' \<in> set (capabilities (parseUPSStatus body))
     \<longleftrightarrow> filled (body_get body ''battery.voltage'')"
proof
  assume "''measure_battery_voltage'' \<in> set (capabilities (parseUPSStatus body))"
  then have "''measure_battery_voltage'' \<in> set (map fst (values (parseUPSStatus body)))"
    by (rule undotted_capability [rotated]) simp
  then show "filled (body_get body ''battery.voltage'')"
    by (simp add: keys_parseUPSStatus split: if_splits)
next
  assume f: "filled (body_get body ''battery.voltage'')"
  then have "''measure_battery_voltage'' \<in> set (map fst (values (parseUPSStatus body)))"
    by (simp add: keys_parseUPSStatus)
  then have "(''measure_battery_voltage'', obj_get (values (parseUPSStatus body)) ''measure_battery_voltage'')
               \<in> set (values (parseUPSStatus body))"
    by (rule obj_get_mem)
  moreover have "entry_capabilities (''measure_battery_voltage'',
                    obj_get (values (parseUPSStatus body)) ''measure_battery_voltage'')
                   = [''measure_battery_voltage'']"
    using f by (simp add: get_measure_battery_voltage float_of_filled notCapabilities_def)
  ultimately show "''measure_battery_voltage'' \<in> set (capabilities (parseUPSStatus body))"
    unfolding capabilities_parseUPSStatus set_concat by force
qed

lemma foldl_append_concat:
  "foldl (\<lambda>acc w. acc @ f w) a ws = a @ concat (map f ws)"
  by (induction ws arbitrary: a) simp_all

lemma white_space_comma: "\<not> white_space (CHR '','')"
  by (simp add: white_space_def)

lemma white_space_space: "white_space (CHR '' '')"
  by (simp add: white_space_def)

lemma remove_trailing_comma_append: "remove_trailing_comma (xs @ '', '') = xs"
  by (induction xs) (simp_all add: white_space_comma white_space_space)

lemma split_not_Nil: "split sep s \<noteq> []"
  by (induction s) (simp_all split: list.splits)

lemma concat_sep_join:
  "ws \<noteq> [] \<Longrightarrow> concat (map (\<lambda>w. f w @ sep) ws) = join sep (map f ws) @ sep"
  by (induction ws rule: induct_list012) simp_all

lemma readableStatus_join:
  "readableStatus s = join '', '' (map state_text (split (CHR '' '') s))"
proof -
  have "foldl (\<lambda>acc word. acc @ state_text word @ '', '') [] (split (CHR '' '') s)
          = join '', '' (map state_text (split (CHR '' '') s)) @ '', ''"
    using foldl_append_concat [of "\<lambda>w. state_text w @ '', ''" "[]" "split (CHR '' '') s"]
      concat_sep_join [OF split_not_Nil, of "state_text" "'', ''" "CHR '' ''" s]
    by simp
  then show ?thesis
    unfolding readableStatus_def by (simp only: remove_trailing_comma_append)
qed

lemma get_status:
  "obj_get (values (parseUPSStatus body)) ''status'' =
     (case body ''ups.status'' of
        None \<Rightarrow> VNull
      | Some s \<Rightarrow> if filled (VStr s) then VStr (readableStatus s) else VNull)"
  unfolding values_parseUPSStatus readable_values_def get_status_before
  by (simp add: string_field_def body_get_def obj_get_obj_set get_status_before filled_def
      split: option.splits)

lemma state_text_unknown:
  "word \<notin> set (map fst STATE_TYPES) \<Longrightarrow> word \<notin> set object_prototype_names \<Longrightarrow>
   state_text word = ''undefined''"
proof -
  assume "word \<notin> set (map fst STATE_TYPES)" and p: "word \<notin> set object_prototype_names"
  then have "map_of STATE_TYPES word = None"
    by (simp add: map_of_eq_None_iff)
  with p show ?thesis by (simp add: state_text_def)
qed

lemma state_text_known: "map_of STATE_TYPES word = Some label \<Longrightarrow> state_text word = label"
  by (simp add: state_text_def)

lemma add_dynamic_store [simp]:
  "store_first_run (add_dynamic st c d) = store_first_run d"
  "store_capabilities (add_dynamic st c d) = store_capabilities d"
  "available (add_dynamic st c d) = available d"
  "nut_calls (add_dynamic st c d) = nut_calls d"
  by (simp_all add: add_dynamic_def addCapability_def)

lemma add_dynamic_live:
  "live_capabilities (add_dynamic st c d) =
     live_capabilities d @
       (if not_nullish (obj_get (values st) c) \<and> c \<notin> set (live_capabilities d) then [c] else [])"
  by (simp add: add_dynamic_def addCapability_def hasCapability_def)

lemma add_dynamic_calls:
  "host_calls (add_dynamic st c d) =
     host_calls d @
       (if not_nullish (obj_get (values st) c) \<and> c \<notin> set (live_capabilities d)
        then [AddCapability c] else [])"
  by (simp add: add_dynamic_def addCapability_def hasCapability_def)

lemma remove_unsupported_Some:
  "remove_unsupported eng (Some known) xs d =
     (None, d\<lparr> live_capabilities :=
                  filter (\<lambda>c. c \<in> set known \<or> c \<notin> set xs) (live_capabilities d),
               host_calls := host_calls d @ map RemoveCapability (filter (\<lambda>c. c \<notin> set known) xs) \<rparr>)"
proof (induction xs arbitrary: d)
  case Nil
  show ?case by simp
next
  case (Cons x xs)
  have f: "filter (\<lambda>c. c \<in> set known \<or> c \<notin> set xs) (removeAll x l)
             = filter (\<lambda>c. c \<in> set known \<or> c \<notin> set (x # xs)) l" if "x \<notin> set known" for l
    using that by (induction l) auto
  have g: "filter (\<lambda>c. c \<in> set known \<or> c \<notin> set xs) l
             = filter (\<lambda>c. c \<in> set known \<or> c \<notin> set (x # xs)) l" if "x \<in> set known" for l :: "string list"
    using that by (induction l) auto
  show ?case
    by (simp add: Cons.IH removeCapability_def f g del: set_simps)
qed

lemma remove_unsupported_None:
  "xs \<noteq> [] \<Longrightarrow> remove_unsupported eng None xs d =
     (Some (Error ''TypeError'' (type_error_message eng VUndefined ''includes'')), d)"
  by (cases xs) simp_all

lemma update_values_frame [simp]:
  "live_capabilities (snd (update_values eng st cs d)) = live_capabilities d"
  "store_first_run (snd (update_values eng st cs d)) = store_first_run d"
  "store_capabilities (snd (update_values eng st cs d)) = store_capabilities d"
  "available (snd (update_values eng st cs d)) = available d"
  "nut_calls (snd (update_values eng st cs d)) = nut_calls d"
  by (induction cs arbitrary: d;
      simp add: updateValue_def setCapabilityValue_def split: sum.splits prod.splits)+

lemma update_values_calls:
  "\<exists>ws. host_calls (snd (update_values eng st cs d)) = host_calls d @ ws
        \<and> (\<forall>w \<in> set ws. \<exists>n v. w = SetCapabilityValue n v)"
proof (induction cs arbitrary: d)
  case Nil
  show ?case by simp
next
  case (Cons c cs)
  show ?case
  proof (cases "resolve eng st c")
    case (Inl e)
    then show ?thesis by simp
  next
    case (Inr nv)
    obtain n v where nv: "nv = (n, v)" by (cases nv)
    from Cons.IH [of "updateValue n v d"] obtain ws where
      "host_calls (snd (update_values eng st cs (updateValue n v d))) = host_calls (updateValue n v d) @ ws"
      "\<forall>w \<in> set ws. \<exists>n v. w = SetCapabilityValue n v" by blast
    then show ?thesis
      using Inr nv
      by (intro exI [of _ "SetCapabilityValue n v # ws"])
         (simp add: updateValue_def setCapabilityValue_def)
  qed
qed

lemma setStoreValue_first_run_simps [simp]:
  "live_capabilities (setStoreValue_first_run b d) = live_capabilities d"
  "store_first_run (setStoreValue_first_run b d) = Some b"
  "store_capabilities (setStoreValue_first_run b d) = store_capabilities d"
  "available (setStoreValue_first_run b d) = available d"
  "nut_calls (setStoreValue_first_run b d) = nut_calls d"
  "host_calls (setStoreValue_first_run b d) = host_calls d @ [SetStoreValue_first_run b]"
  by (simp_all add: setStoreValue_first_run_def)

lemma setCapabilities_no_first_run:
  assumes "store_first_run d \<noteq> Some True"
  shows "setCapabilities eng st d =
     update_values eng st (capabilityList st (store_capabilities d))
       (add_dynamic st ''measure_battery_voltage'' (add_dynamic st ''measure_load'' d))"
  using assms by (simp add: setCapabilities_def Let_def)

lemma setCapabilities_first_run:
  assumes "store_first_run d = Some True" "store_capabilities d = Some known"
  shows "setCapabilities eng st d =
     (let d2 = add_dynamic st ''measure_battery_voltage'' (add_dynamic st ''measure_load'' d)
      in update_values eng st (capabilityList st (Some known))
           (setStoreValue_first_run False
              (d2\<lparr> live_capabilities := filter (\<lambda>c. c \<in> set known) (live_capabilities d2),
                   host_calls := host_calls d2
                     @ map RemoveCapability (filter (\<lambda>c. c \<notin> set known) (live_capabilities d2)) \<rparr>)))"
proof -
  have "filter (\<lambda>c. c \<in> set known \<or> c \<notin> set l) l = filter (\<lambda>c. c \<in> set known) l" for l :: "string list"
    by (rule filter_cong) auto
  then show ?thesis
    using assms
    by (simp add: setCapabilities_def Let_def getCapabilities_def remove_unsupported_Some)
qed

lemma setCapabilities_throws:
  assumes "store_first_run d = Some True" "store_capabilities d = None"
    "live_capabilities d \<noteq> []"
  shows "setCapabilities eng st d =
     (Some (Error ''TypeError'' (type_error_message eng VUndefined ''includes'')),
      add_dynamic st ''measure_battery_voltage'' (add_dynamic st ''measure_load'' d))"
proof -
  have "getCapabilities (add_dynamic st ''measure_battery_voltage'' (add_dynamic st ''measure_load'' d)) \<noteq> []"
    using assms(3) by (simp add: getCapabilities_def add_dynamic_live)
  then show ?thesis
    using assms(1,2)
    by (simp add: setCapabilities_def Let_def remove_unsupported_None)
qed

lemma setCapabilities_first_run_empty:
  assumes "store_first_run d = Some True" "store_capabilities d = None"
    "live_capabilities (add_dynamic st ''measure_battery_voltage'' (add_dynamic st ''measure_load'' d)) = []"
  shows "setCapabilities eng st d =
     update_values eng st (capabilityList st None)
       (setStoreValue_first_run False
          (add_dynamic st ''measure_battery_voltage'' (add_dynamic st ''measure_load'' d)))"
  using assms by (simp add: setCapabilities_def Let_def getCapabilities_def)

lemma setCapabilities_store_capabilities:
  "store_capabilities (snd (setCapabilities eng st d)) = store_capabilities d"
proof (cases "store_first_run d = Some True")
  case False
  then show ?thesis by (simp add: setCapabilities_no_first_run)
next
  case True
  show ?thesis
  proof (cases "store_capabilities d")
    case (Some known)
    with True show ?thesis by (simp add: setCapabilities_first_run Let_def)
  next
    case None
    show ?thesis
    proof (cases "live_capabilities (add_dynamic st ''measure_battery_voltage'' (add_dynamic st ''measure_load'' d)) = []")
      case True
      with \<open>store_first_run d = Some True\<close> None show ?thesis
        by (simp add: setCapabilities_first_run_empty)
    next
      case False
      then have "getCapabilities (add_dynamic st ''measure_battery_voltage'' (add_dynamic st ''measure_load'' d)) \<noteq> []"
        by (simp add: getCapabilities_def)
      with \<open>store_first_run d = Some True\<close> None show ?thesis
        by (simp add: setCapabilities_def Let_def remove_unsupported_None)
    qed
  qed
qed

lemma set_add_all_set: "set (set_add_all acc xs) = set acc \<union> set xs"
  by (induction acc xs rule: set_add_all.induct) auto

lemma set_add_all_distinct: "distinct acc \<Longrightarrow> distinct (set_add_all acc xs)"
  by (induction acc xs rule: set_add_all.induct) auto

lemma capabilityList_set:
  "set (capabilityList st dc) =
     (case dc of None \<Rightarrow> set (capabilities st) | Some known \<Rightarrow> set known \<union> set (capabilities st))"
  by (simp add: capabilityList_def merged_capabilities_def array_from_set_def set_add_all_set
      split: option.splits)

lemma capabilityList_distinct:
  "distinct (capabilityList st (Some known))"
  by (simp add: capabilityList_def merged_capabilities_def array_from_set_def set_add_all_distinct)

lemma get_fixed_field:
  "k \<noteq> ''status'' \<Longrightarrow> k \<noteq> ''alarm_status'' \<Longrightarrow> k \<noteq> ''measure_load'' \<Longrightarrow>
   k \<noteq> ''measure_battery_voltage'' \<Longrightarrow>
   obj_get (values (parseUPSStatus body)) k = obj_get (initial_values body) k"
  by (simp add: values_parseUPSStatus get_readable_values get_add_measure_battery_voltage
      get_add_measure_load)

lemma get_fields:
  "obj_get (values (parseUPSStatus body)) ''name'' = string_field body ''ups.model''"
  "obj_get (values (parseUPSStatus body)) ''measure_battery'' = int_field body ''battery.charge''"
  "obj_get (values (parseUPSStatus body)) ''measure_battery_runtime'' = int_field body ''battery.runtime''"
  "obj_get (values (parseUPSStatus body)) ''measure_temperature'' = float_field body ''battery.temperature''"
  "obj_get (values (parseUPSStatus body)) ''id'' = string_field body ''ups.serial''"
  "obj_get (values (parseUPSStatus body)) ''measure_voltage'' =
     VObj [(''input'', int_field body ''input.voltage''), (''output'', int_field body ''output.voltage'')]"
  by (simp_all add: get_fixed_field get_initial_values)

lemma parseInt10_NaN:
  "parseInt10 s = NaN \<longleftrightarrow> takeWhile decimal_digit (snd (strip_sign (dropWhile white_space s))) = []"
  by (simp add: parseInt10_def Let_def split: prod.splits)

lemma int_field_cases:
  "int_field body k =
     (case body k of None \<Rightarrow> VNull
      | Some s \<Rightarrow> if filled (VStr s) then VNum (parseInt10 s) else VNull)"
  by (simp add: int_field_def body_get_def int_of_def filled_def split: option.splits)

lemma float_field_cases:
  "float_field body k =
     (case body k of None \<Rightarrow> VNull
      | Some s \<Rightarrow> if filled (VStr s) then VNum (parseFloat s) else VNull)"
  by (simp add: float_field_def body_get_def float_of_def filled_def split: option.splits)

lemma string_field_cases:
  "string_field body k =
     (case body k of None \<Rightarrow> VNull
      | Some s \<Rightarrow> if filled (VStr s) then VStr s else VNull)"
  by (simp add: string_field_def body_get_def filled_def split: option.splits)

lemma filled_body_get_cases:
  "filled (body_get body k) = (case body k of None \<Rightarrow> False | Some s \<Rightarrow> filled (VStr s))"
  by (simp add: body_get_def filled_def split: option.splits)

lemma filled_eval: "filled (VStr s) = (rev (dropWhile white_space (rev (dropWhile white_space s))) \<noteq> [])"
  by (simp add: filled_def trim_def)

lemma split_undotted:
  "sep \<notin> set c \<Longrightarrow> split sep c = [c]"
  by (induction c) (auto split: list.splits)

lemma resolve_plain:
  "CHR ''.'' \<notin> set c \<Longrightarrow> resolve eng st c = Inr (c, obj_get (values st) c)"
  by (simp add: resolve_def split_undotted)

lemma setCapabilities_shape:
  "\<exists>d3 rm.
      host_calls d3 = host_calls (add_dynamic st ''measure_battery_voltage''
                                    (add_dynamic st ''measure_load'' d)) @ rm
    \<and> (\<forall>x \<in> set rm. (\<exists>c. x = RemoveCapability c) \<or> x = SetStoreValue_first_run False)
    \<and> store_capabilities d3 = store_capabilities d
    \<and> available d3 = available d
    \<and> nut_calls d3 = nut_calls d
    \<and> (setCapabilities eng st d = update_values eng st (capabilityList st (store_capabilities d)) d3
        \<or> (\<exists>e. setCapabilities eng st d = (Some e, d3)))"
proof -
  let ?d2 = "add_dynamic st ''measure_battery_voltage'' (add_dynamic st ''measure_load'' d)"
  show ?thesis
  proof (cases "store_first_run d = Some True")
    case False
    then show ?thesis
      by (intro exI [of _ ?d2] exI [of _ "[]"]) (simp add: setCapabilities_no_first_run)
  next
    case True
    show ?thesis
    proof (cases "store_capabilities d")
      case (Some known)
      let ?rm = "map RemoveCapability (filter (\<lambda>c. c \<notin> set known) (live_capabilities ?d2))"
      let ?d3 = "setStoreValue_first_run False
              (?d2\<lparr> live_capabilities := filter (\<lambda>c. c \<in> set known) (live_capabilities ?d2),
                   host_calls := host_calls ?d2 @ ?rm \<rparr>)"
      show ?thesis
        using True Some
        by (intro exI [of _ ?d3] exI [of _ "?rm @ [SetStoreValue_first_run False]"])
           (auto simp add: setCapabilities_first_run Let_def)
    next
      case None
      show ?thesis
      proof (cases "live_capabilities ?d2 = []")
        case True
        with \<open>store_first_run d = Some True\<close> None show ?thesis
          by (intro exI [of _ "setStoreValue_first_run False ?d2"]
                exI [of _ "[SetStoreValue_first_run False]"])
             (simp add: setCapabilities_first_run_empty)
      next
        case False
        then have "getCapabilities ?d2 \<noteq> []"
          by (simp add: getCapabilities_def)
        with \<open>store_first_run d = Some True\<close> None
        have "setCapabilities eng st d =
                (Some (Error ''TypeError'' (type_error_message eng VUndefined ''includes'')), ?d2)"
          by (simp add: setCapabilities_def Let_def remove_unsupported_None)
        then show ?thesis
          by (intro exI [of _ ?d2] exI [of _ "[]"]) simp
      qed
    qed
  qed
qed

lemma setCapabilities_frame:
  "available (snd (setCapabilities eng st d)) = available d"
  "nut_calls (snd (setCapabilities eng st d)) = nut_calls d"
proof -
  from setCapabilities_shape [of st d eng] obtain d3 where
    d3: "available d3 = available d" "nut_calls d3 = nut_calls d"
      "setCapabilities eng st d = update_values eng st (capabilityList st (store_capabilities d)) d3
        \<or> (\<exists>e. setCapabilities eng st d = (Some e, d3))"
    by blast
  from d3 show "available (snd (setCapabilities eng st d)) = available d" by auto
  from d3 show "nut_calls (snd (setCapabilities eng st d)) = nut_calls d" by auto
qed

lemma not_nullish_dynamic:
  assumes "set (capabilities (parseUPSStatus body)) \<subseteq> set (live_capabilities d)"
  shows "add_dynamic (parseUPSStatus body) ''measure_load'' d = d"
    and "add_dynamic (parseUPSStatus body) ''measure_battery_voltage'' d = d"
proof -
  have "''measure_load'' \<in> set (live_capabilities d)"
    if "not_nullish (obj_get (values (parseUPSStatus body)) ''measure_load'')"
  proof -
    from that have "filled (body_get body ''ups.load'')"
      by (simp add: get_measure_load not_nullish_def split: if_splits)
    then show ?thesis
      using assms measure_load_capability [of body] by auto
  qed
  then show "add_dynamic (parseUPSStatus body) ''measure_load'' d = d"
    by (auto simp: add_dynamic_def hasCapability_def)
  have "''measure_battery_voltage'' \<in> set (live_capabilities d)"
    if "not_nullish (obj_get (values (parseUPSStatus body)) ''measure_battery_voltage'')"
  proof -
    from that have "filled (body_get body ''battery.voltage'')"
      by (simp add: get_measure_battery_voltage not_nullish_def split: if_splits)
    then show ?thesis
      using assms measure_battery_voltage_capability [of body] by auto
  qed
  then show "add_dynamic (parseUPSStatus body) ''measure_battery_voltage'' d = d"
    by (auto simp: add_dynamic_def hasCapability_def)
qed

lemma setCapabilities_calls:
  "\<exists>rest. host_calls (snd (setCapabilities eng st d)) =
            host_calls (add_dynamic st ''measure_battery_voltage''
                          (add_dynamic st ''measure_load'' d)) @ rest
        \<and> (\<forall>c. AddCapability c \<notin> set rest)"
proof -
  let ?d2 = "add_dynamic st ''measure_battery_voltage'' (add_dynamic st ''measure_load'' d)"
  from setCapabilities_shape [of st d eng] obtain d3 rm where
    d3: "host_calls d3 = host_calls ?d2 @ rm"
      "\<forall>x \<in> set rm. (\<exists>c. x = RemoveCapability c) \<or> x = SetStoreValue_first_run False"
      "setCapabilities eng st d = update_values eng st (capabilityList st (store_capabilities d)) d3
        \<or> (\<exists>e. setCapabilities eng st d = (Some e, d3))"
    by blast
  from update_values_calls [of eng st "capabilityList st (store_capabilities d)" d3]
  obtain ws where ws:
    "host_calls (snd (update_values eng st (capabilityList st (store_capabilities d)) d3))
       = host_calls d3 @ ws"
    "\<forall>w \<in> set ws. \<exists>n v. w = SetCapabilityValue n v"
    by blast
  from d3(3) show ?thesis
  proof
    assume "setCapabilities eng st d
              = update_values eng st (capabilityList st (store_capabilities d)) d3"
    then have "host_calls (snd (setCapabilities eng st d)) = host_calls ?d2 @ (rm @ ws)"
      by (simp add: ws(1) d3(1))
    moreover have "\<forall>c. AddCapability c \<notin> set (rm @ ws)"
      using d3(2) ws(2) by auto
    ultimately show ?thesis by blast
  next
    assume "\<exists>e. setCapabilities eng st d = (Some e, d3)"
    then have "host_calls (snd (setCapabilities eng st d)) = host_calls ?d2 @ rm"
      by (auto simp: d3(1))
    moreover have "\<forall>c. AddCapability c \<notin> set rm"
      using d3(2) by auto
    ultimately show ?thesis by blast
  qed
qed

lemma nut_call_simps [simp]:
  "nut_calls (nut_call c d) = nut_calls d @ [c]"
  "available (nut_call c d) = available d"
  by (simp_all add: nut_call_def)

lemma setAvailable_simps [simp]:
  "nut_calls (setAvailable d) = nut_calls d"
  "available (setAvailable d) = Available"
  by (simp_all add: setAvailable_def)

lemma setUnavailable_simps [simp]:
  "nut_calls (setUnavailable r d) = nut_calls d"
  "available (setUnavailable r d) = Unavailable r"
  by (simp_all add: setUnavailable_def)

lemma try_body_nut_calls:
  "\<exists>tr. nut_calls (snd (try_body eng n d)) = nut_calls d @ tr \<and> Close \<notin> set tr"
proof -
  have sc: "nut_calls (snd (setCapabilities eng st d')) = nut_calls d'" for st d'
    by (rule setCapabilities_frame)
  have sc': "nut_calls d5 = nut_calls d'" if "setCapabilities eng st d' = (r, d5)" for st d' r d5
    using sc [of st d'] that by simp
  show ?thesis
    by (auto simp: try_body_def Let_def sc' split: option.splits sum.splits prod.splits)
qed

lemma try_body_available:
  "fst (try_body eng n d) = None \<Longrightarrow> available (snd (try_body eng n d)) = Available"
  by (auto simp: try_body_def Let_def split: option.splits sum.splits prod.splits)

lemma try_body_failure:
  "start_result n = Some e \<Longrightarrow> fst (try_body eng n d) = Some e"
  "start_result n = None \<Longrightarrow> SetUsername_result n = Some e \<Longrightarrow> fst (try_body eng n d) = Some e"
  "start_result n = None \<Longrightarrow> SetUsername_result n = None \<Longrightarrow> SetPassword_result n = Some e \<Longrightarrow>
     fst (try_body eng n d) = Some e"
  "start_result n = None \<Longrightarrow> SetUsername_result n = None \<Longrightarrow> SetPassword_result n = None \<Longrightarrow>
     GetUPSVars_result n = Inl e \<Longrightarrow> fst (try_body eng n d) = Some e"
  by (simp_all add: try_body_def Let_def)

lemma getDeviceData_unfold:
  "getDeviceData eng n d =
     (None, nut_call Close
        (case fst (try_body eng n d) of
           None \<Rightarrow> snd (try_body eng n d)
         | Some err \<Rightarrow> setUnavailable (''Connection error: '' @ message_or_err err)
                        (snd (try_body eng n d))))"
  by (cases "try_body eng n d") (simp add: getDeviceData_def Let_def split: option.splits)

lemma update_values_prefix:
  "\<exists>nvs. length nvs \<le> length cs
      \<and> map (resolve eng st) (take (length nvs) cs) = map Inr nvs
      \<and> snd (update_values eng st cs d) =
            d\<lparr> host_calls := host_calls d @ map (\<lambda>(n, v). SetCapabilityValue n v) nvs \<rparr>
      \<and> (fst (update_values eng st cs d) = None \<longrightarrow> length nvs = length cs)
      \<and> ((\<forall>c \<in> set cs. \<exists>nv. resolve eng st c = Inr nv) \<longrightarrow>
            fst (update_values eng st cs d) = None)"
proof (induction cs arbitrary: d)
  case Nil
  show ?case by (intro exI [of _ "[]"]) simp
next
  case (Cons c cs)
  show ?case
  proof (cases "resolve eng st c")
    case (Inl e)
    then show ?thesis by (intro exI [of _ "[]"]) simp
  next
    case (Inr nv)
    obtain n v where nv: "nv = (n, v)" by (cases nv)
    from Cons.IH [of "updateValue n v d"] obtain nvs where
      i: "length nvs \<le> length cs
        \<and> map (resolve eng st) (take (length nvs) cs) = map Inr nvs
        \<and> snd (update_values eng st cs (updateValue n v d)) =
            (updateValue n v d)\<lparr> host_calls := host_calls (updateValue n v d)
                                      @ map (\<lambda>(n, v). SetCapabilityValue n v) nvs \<rparr>
        \<and> (fst (update_values eng st cs (updateValue n v d)) = None \<longrightarrow> length nvs = length cs)
        \<and> ((\<forall>c \<in> set cs. \<exists>nv. resolve eng st c = Inr nv) \<longrightarrow>
            fst (update_values eng st cs (updateValue n v d)) = None)"
      by (rule exE)
    show ?thesis
      using Inr nv i
      by (intro exI [of _ "(n, v) # nvs"]) (simp add: updateValue_def setCapabilityValue_def)
  qed
qed

lemma setCapabilities_reaches_writes:
  assumes "\<not> (store_first_run d = Some True \<and> store_capabilities d = None)"
  shows "\<exists>d3 rm.
      host_calls d3 = host_calls (add_dynamic st ''measure_battery_voltage''
                                    (add_dynamic st ''measure_load'' d)) @ rm
    \<and> (\<forall>x \<in> set rm. (\<exists>c. x = RemoveCapability c) \<or> x = SetStoreValue_first_run False)
    \<and> setCapabilities eng st d = update_values eng st (capabilityList st (store_capabilities d)) d3"
proof -
  let ?d2 = "add_dynamic st ''measure_battery_voltage'' (add_dynamic st ''measure_load'' d)"
  show ?thesis
  proof (cases "store_first_run d = Some True")
    case False
    then show ?thesis
      by (intro exI [of _ ?d2] exI [of _ "[]"]) (simp add: setCapabilities_no_first_run)
  next
    case True
    with assms obtain known where k: "store_capabilities d = Some known" by auto
    let ?rm = "map RemoveCapability (filter (\<lambda>c. c \<notin> set known) (live_capabilities ?d2))"
    let ?d3 = "setStoreValue_first_run False
            (?d2\<lparr> live_capabilities := filter (\<lambda>c. c \<in> set known) (live_capabilities ?d2),
                 host_calls := host_calls ?d2 @ ?rm \<rparr>)"
    show ?thesis
      using True k
      by (intro exI [of _ ?d3] exI [of _ "?rm @ [SetStoreValue_first_run False]"])
         (auto simp add: setCapabilities_first_run Let_def)
  qed
qed

section \<open>The claims\<close>

subsection \<open>C1\<close>

text \<open>
  Claim C1, as amended. The claim reads an unset \<open>first_run\<close> as true; line 83 tests
  \<open>firstRun != null && firstRun\<close>, so an unset flag skips the pruning. What holds: when
  the persisted \<open>first_run\<close> is true and the persisted \<open>capabilities\<close> are set, the live
  device keeps, of the capabilities it exposes after the two dynamic additions,
  exactly those in the persisted list, and \<open>first_run\<close> is persisted as false. When
  \<open>first_run\<close> is unset or false nothing is removed and the flag is left as it is, so
  a flag that is false stays false.
\<close>

theorem C1_first_run_pruning:
  "(store_first_run d = Some True \<and> store_capabilities d = Some known \<longrightarrow>
      live_capabilities (snd (setCapabilities eng st d)) =
        filter (\<lambda>c. c \<in> set known)
          (live_capabilities (add_dynamic st ''measure_battery_voltage''
                                (add_dynamic st ''measure_load'' d)))
      \<and> store_first_run (snd (setCapabilities eng st d)) = Some False)
   \<and> (store_first_run d \<noteq> Some True \<longrightarrow>
      live_capabilities (snd (setCapabilities eng st d)) =
        live_capabilities (add_dynamic st ''measure_battery_voltage''
                             (add_dynamic st ''measure_load'' d))
      \<and> store_first_run (snd (setCapabilities eng st d)) = store_first_run d)"
  by (simp add: setCapabilities_first_run setCapabilities_no_first_run Let_def)

text \<open>The theorem at a concrete input.\<close>

theorem C1_witness:
  "store_first_run (initialized_device [''measure_battery'', ''measure_voltage.input'', ''foo'']
       (Some True) (Some [''measure_battery'', ''measure_voltage.input''])) = Some True
   \<and> live_capabilities (snd (setCapabilities sample_engine
        (parseUPSStatus [''battery.charge'' \<mapsto> ''85'', ''input.voltage'' \<mapsto> ''230''])
        (initialized_device [''measure_battery'', ''measure_voltage.input'', ''foo''] (Some True)
           (Some [''measure_battery'', ''measure_voltage.input'']))))
       = [''measure_battery'', ''measure_voltage.input'']
   \<and> store_first_run (snd (setCapabilities sample_engine
        (parseUPSStatus [''battery.charge'' \<mapsto> ''85'', ''input.voltage'' \<mapsto> ''230''])
        (initialized_device [''measure_battery'', ''measure_voltage.input'', ''foo''] (Some True)
           (Some [''measure_battery'', ''measure_voltage.input''])))) = Some False"
proof -
  let ?known = "[''measure_battery'', ''measure_voltage.input'']"
  let ?d = "initialized_device [''measure_battery'', ''measure_voltage.input'', ''foo'']
              (Some True) (Some ?known)"
  let ?st = "parseUPSStatus [''battery.charge'' \<mapsto> ''85'', ''input.voltage'' \<mapsto> ''230'']"
  have h: "store_first_run ?d = Some True \<and> store_capabilities ?d = Some ?known"
    by (simp add: initialized_device_def)
  have e: "filter (\<lambda>c. c \<in> set ?known)
             (live_capabilities (add_dynamic ?st ''measure_battery_voltage''
                                   (add_dynamic ?st ''measure_load'' ?d))) = ?known"
    by code_simp
  from C1_first_run_pruning [of ?d ?known sample_engine ?st] h
  have "live_capabilities (snd (setCapabilities sample_engine ?st ?d)) =
          filter (\<lambda>c. c \<in> set ?known)
            (live_capabilities (add_dynamic ?st ''measure_battery_voltage''
                                  (add_dynamic ?st ''measure_load'' ?d)))
        \<and> store_first_run (snd (setCapabilities sample_engine ?st ?d)) = Some False"
    by blast
  with e h show ?thesis by simp
qed

text \<open>
  The original claim at the specification's own example, with \<open>first_run\<close> unset:
  \<open>foo\<close> is not in the persisted list, stays on the live device, and \<open>first_run\<close>
  stays unset.
\<close>

theorem C1_counterexample:
  "store_first_run (initialized_device [''measure_battery'', ''measure_voltage.input'', ''foo''] None
       (Some [''measure_battery'', ''measure_voltage.input''])) = None
   \<and> ''foo'' \<in> set (live_capabilities (snd (setCapabilities sample_engine
        (parseUPSStatus [''battery.charge'' \<mapsto> ''85'', ''input.voltage'' \<mapsto> ''230''])
        (initialized_device [''measure_battery'', ''measure_voltage.input'', ''foo''] None
           (Some [''measure_battery'', ''measure_voltage.input''])))))
   \<and> store_first_run (snd (setCapabilities sample_engine
        (parseUPSStatus [''battery.charge'' \<mapsto> ''85'', ''input.voltage'' \<mapsto> ''230''])
        (initialized_device [''measure_battery'', ''measure_voltage.input'', ''foo''] None
           (Some [''measure_battery'', ''measure_voltage.input''])))) = None"
  by code_simp

subsection \<open>C2\<close>

text \<open>
  Claim C2, as amended. \<open>setCapabilities\<close> never writes the store entry
  \<open>capabilities\<close>: the persisted set after a reconciliation is the one before it. The
  merge of lines 98 to 103 is a local list, the one the values are written for: the
  status's capability list when the persisted set is unset, otherwise the persisted
  names and the status's names together, each once.
\<close>

theorem C2_merged_list:
  "store_capabilities (snd (setCapabilities eng st d)) = store_capabilities d
   \<and> set (capabilityList st (store_capabilities d)) =
       (case store_capabilities d of
          None \<Rightarrow> set (capabilities st)
        | Some known \<Rightarrow> set known \<union> set (capabilities st))
   \<and> capabilityList st None = capabilities st
   \<and> distinct (capabilityList st (Some known))"
  by (simp add: setCapabilities_store_capabilities capabilityList_set capabilityList_distinct)
     (simp add: capabilityList_def merged_capabilities_def)

text \<open>The theorem at a concrete input.\<close>

theorem C2_witness:
  "store_capabilities (snd (setCapabilities sample_engine
        (parseUPSStatus [''battery.charge'' \<mapsto> ''85'', ''ups.load'' \<mapsto> ''20''])
        (initialized_device [''measure_battery''] (Some False) (Some [''measure_battery''])))) 
       = Some [''measure_battery'']
   \<and> set (capabilityList (parseUPSStatus [''battery.charge'' \<mapsto> ''85'', ''ups.load'' \<mapsto> ''20''])
        (Some [''measure_battery''])) = {''measure_battery'', ''alarm_status'', ''measure_load''}"
proof -
  let ?d = "initialized_device [''measure_battery''] (Some False) (Some [''measure_battery''])"
  let ?st = "parseUPSStatus [''battery.charge'' \<mapsto> ''85'', ''ups.load'' \<mapsto> ''20'']"
  have s: "store_capabilities ?d = Some [''measure_battery'']"
    by (simp add: initialized_device_def)
  have c: "capabilities ?st = [''measure_battery'', ''alarm_status'', ''measure_load'']"
    by code_simp
  from C2_merged_list [of sample_engine ?st ?d] s c show ?thesis
    by auto
qed

text \<open>
  The original claim at the specification's own example: the status lists
  \<open>measure_load\<close>, the reconciliation returns, and the persisted set is still
  \<open>measure_battery\<close> alone.
\<close>

theorem C2_counterexample:
  "''measure_load'' \<in> set (capabilities (parseUPSStatus [''battery.charge'' \<mapsto> ''85'', ''ups.load'' \<mapsto> ''20'']))
   \<and> fst (setCapabilities sample_engine
        (parseUPSStatus [''battery.charge'' \<mapsto> ''85'', ''ups.load'' \<mapsto> ''20''])
        (initialized_device [''measure_battery''] (Some False) (Some [''measure_battery'']))) = None
   \<and> store_capabilities (snd (setCapabilities sample_engine
        (parseUPSStatus [''battery.charge'' \<mapsto> ''85'', ''ups.load'' \<mapsto> ''20''])
        (initialized_device [''measure_battery''] (Some False) (Some [''measure_battery''])))) 
       = Some [''measure_battery'']"
  by code_simp

subsection \<open>C3\<close>

text \<open>
  Claim C3, as amended. \<open>updateValue\<close> is called for every name of the list of line
  105 that the loop reaches, filled or not. The calls that \<open>setCapabilities\<close> makes
  to the host end with the value writes, and no write comes before them: one write
  per name of an initial part of the list, in order, each with the name and the
  value that lines 107 to 114 resolve (undefined or null where the status has
  nothing). When \<open>setCapabilities\<close> returns, that initial part is the whole list; and
  it returns whenever it is not the case that \<open>first_run\<close> is true with \<open>capabilities\<close>
  unset, and every name of the list resolves. A name without a dot always resolves,
  to itself and \<open>status.values[name]\<close>, so a capability without a value is not an
  error.
\<close>

theorem C3_value_writes:
  "(\<exists>others nvs.
        host_calls (snd (setCapabilities eng st d)) =
          host_calls d @ others @ map (\<lambda>(n, v). SetCapabilityValue n v) nvs
      \<and> (\<forall>n v. SetCapabilityValue n v \<notin> set others)
      \<and> length nvs \<le> length (capabilityList st (store_capabilities d))
      \<and> map (resolve eng st) (take (length nvs) (capabilityList st (store_capabilities d)))
          = map Inr nvs
      \<and> (fst (setCapabilities eng st d) = None \<longrightarrow>
          length nvs = length (capabilityList st (store_capabilities d))))
   \<and> (\<not> (store_first_run d = Some True \<and> store_capabilities d = None)
        \<and> (\<forall>c \<in> set (capabilityList st (store_capabilities d)). \<exists>nv. resolve eng st c = Inr nv)
       \<longrightarrow> fst (setCapabilities eng st d) = None)
   \<and> (CHR ''.'' \<notin> set c \<longrightarrow> resolve eng st c = Inr (c, obj_get (values st) c))"
proof (intro conjI impI)
  let ?d2 = "add_dynamic st ''measure_battery_voltage'' (add_dynamic st ''measure_load'' d)"
  let ?cs = "capabilityList st (store_capabilities d)"
  obtain adds where adds: "host_calls ?d2 = host_calls d @ adds"
      "\<forall>x \<in> set adds. \<exists>c. x = AddCapability c"
    by (auto simp: add_dynamic_calls)
  from setCapabilities_shape [of st d eng] obtain d3 rm where
    d3: "host_calls d3 = host_calls ?d2 @ rm"
      "\<forall>x \<in> set rm. (\<exists>c. x = RemoveCapability c) \<or> x = SetStoreValue_first_run False"
      "setCapabilities eng st d = update_values eng st ?cs d3
        \<or> (\<exists>e. setCapabilities eng st d = (Some e, d3))"
    by blast
  have no: "\<forall>n v. SetCapabilityValue n v \<notin> set (adds @ rm)"
    using adds(2) d3(2) by auto
  from d3(3) show "\<exists>others nvs.
        host_calls (snd (setCapabilities eng st d)) =
          host_calls d @ others @ map (\<lambda>(n, v). SetCapabilityValue n v) nvs
      \<and> (\<forall>n v. SetCapabilityValue n v \<notin> set others)
      \<and> length nvs \<le> length ?cs
      \<and> map (resolve eng st) (take (length nvs) ?cs) = map Inr nvs
      \<and> (fst (setCapabilities eng st d) = None \<longrightarrow> length nvs = length ?cs)"
  proof
    assume eq: "setCapabilities eng st d = update_values eng st ?cs d3"
    from update_values_prefix [of ?cs eng st d3] obtain nvs where
      p0: "length nvs \<le> length ?cs
         \<and> map (resolve eng st) (take (length nvs) ?cs) = map Inr nvs
         \<and> snd (update_values eng st ?cs d3) =
            d3\<lparr> host_calls := host_calls d3 @ map (\<lambda>(n, v). SetCapabilityValue n v) nvs \<rparr>
         \<and> (fst (update_values eng st ?cs d3) = None \<longrightarrow> length nvs = length ?cs)
         \<and> ((\<forall>c \<in> set ?cs. \<exists>nv. resolve eng st c = Inr nv) \<longrightarrow>
               fst (update_values eng st ?cs d3) = None)"
      by (rule exE)
    from p0 have p: "length nvs \<le> length ?cs"
         "map (resolve eng st) (take (length nvs) ?cs) = map Inr nvs"
         "snd (update_values eng st ?cs d3) =
            d3\<lparr> host_calls := host_calls d3 @ map (\<lambda>(n, v). SetCapabilityValue n v) nvs \<rparr>"
         "fst (update_values eng st ?cs d3) = None \<longrightarrow> length nvs = length ?cs"
      by simp_all
    have "host_calls (snd (setCapabilities eng st d)) =
            host_calls d @ (adds @ rm) @ map (\<lambda>(n, v). SetCapabilityValue n v) nvs"
      by (simp add: eq p(3) d3(1) adds(1))
    with no p(1,2,4) eq show ?thesis
      by (intro exI [of _ "adds @ rm"] exI [of _ nvs]) simp
  next
    assume "\<exists>e. setCapabilities eng st d = (Some e, d3)"
    then obtain e where eq: "setCapabilities eng st d = (Some e, d3)" by blast
    have "host_calls (snd (setCapabilities eng st d)) =
            host_calls d @ (adds @ rm) @ map (\<lambda>(n, v). SetCapabilityValue n v) []"
      by (simp add: eq d3(1) adds(1))
    with no eq show ?thesis
      by (intro exI [of _ "adds @ rm"] exI [of _ "[]"]) simp
  qed
next
  let ?cs = "capabilityList st (store_capabilities d)"
  assume a: "\<not> (store_first_run d = Some True \<and> store_capabilities d = None)
        \<and> (\<forall>c \<in> set ?cs. \<exists>nv. resolve eng st c = Inr nv)"
  then obtain d3 where eq: "setCapabilities eng st d = update_values eng st ?cs d3"
    using setCapabilities_reaches_writes [of d st eng] by blast
  from update_values_prefix [of ?cs eng st d3] a
  have "fst (update_values eng st ?cs d3) = None" by blast
  with eq show "fst (setCapabilities eng st d) = None" by simp
next
  assume "CHR ''.'' \<notin> set c"
  then show "resolve eng st c = Inr (c, obj_get (values st) c)"
    by (rule resolve_plain)
qed

text \<open>The theorem at a concrete input.\<close>

theorem C3_witness:
  "fst (setCapabilities sample_engine (parseUPSStatus [''battery.charge'' \<mapsto> ''85''])
        (initialized_device [''measure_battery'', ''measure_battery_runtime'']
           (Some False) (Some [''measure_battery'', ''measure_battery_runtime'']))) = None
   \<and> (\<exists>others.
        host_calls (snd (setCapabilities sample_engine (parseUPSStatus [''battery.charge'' \<mapsto> ''85''])
          (initialized_device [''measure_battery'', ''measure_battery_runtime'']
             (Some False) (Some [''measure_battery'', ''measure_battery_runtime'']))))
          = others @ [SetCapabilityValue ''measure_battery'' (VNum (Num 85)),
                      SetCapabilityValue ''measure_battery_runtime'' VNull,
                      SetCapabilityValue ''alarm_status'' (VBool False)]
        \<and> (\<forall>n v. SetCapabilityValue n v \<notin> set others))"
proof -
  let ?d = "initialized_device [''measure_battery'', ''measure_battery_runtime'']
              (Some False) (Some [''measure_battery'', ''measure_battery_runtime''])"
  let ?st = "parseUPSStatus [''battery.charge'' \<mapsto> ''85'']"
  let ?cs = "capabilityList ?st (store_capabilities ?d)"
  have g: "\<not> (store_first_run ?d = Some True \<and> store_capabilities ?d = None)"
    by (simp add: initialized_device_def)
  have l: "map (resolve sample_engine ?st) ?cs =
       map Inr [(''measure_battery'', VNum (Num 85)), (''measure_battery_runtime'', VNull),
                (''alarm_status'', VBool False)]"
    by code_simp
  have a: "\<forall>c \<in> set ?cs. \<exists>nv. resolve sample_engine ?st c = Inr nv"
  proof
    fix c assume "c \<in> set ?cs"
    then have "resolve sample_engine ?st c \<in> set (map (resolve sample_engine ?st) ?cs)"
      by simp
    then show "\<exists>nv. resolve sample_engine ?st c = Inr nv"
      unfolding l by auto
  qed
  have h: "host_calls ?d = []"
    by (simp add: initialized_device_def)
  note t = C3_value_writes [of sample_engine ?st ?d "''measure_battery_runtime''"]
  from t g a have r: "fst (setCapabilities sample_engine ?st ?d) = None"
    by blast
  from t [THEN conjunct1] obtain others nvs where
    o0: "host_calls (snd (setCapabilities sample_engine ?st ?d)) =
            host_calls ?d @ others @ map (\<lambda>(n, v). SetCapabilityValue n v) nvs
       \<and> (\<forall>n v. SetCapabilityValue n v \<notin> set others)
       \<and> length nvs \<le> length ?cs
       \<and> map (resolve sample_engine ?st) (take (length nvs) ?cs) = map Inr nvs
       \<and> (fst (setCapabilities sample_engine ?st ?d) = None \<longrightarrow> length nvs = length ?cs)"
    by (elim exE)
  from o0 have o: "host_calls (snd (setCapabilities sample_engine ?st ?d)) =
            host_calls ?d @ others @ map (\<lambda>(n, v). SetCapabilityValue n v) nvs"
       "\<forall>n v. SetCapabilityValue n v \<notin> set others"
       "map (resolve sample_engine ?st) (take (length nvs) ?cs) = map Inr nvs"
       "fst (setCapabilities sample_engine ?st ?d) = None \<longrightarrow> length nvs = length ?cs"
    by simp_all
  from o(4) r have "take (length nvs) ?cs = ?cs" by simp
  with o(3) have m: "map (resolve sample_engine ?st) ?cs = map Inr nvs" by simp
  have "map (Inr :: string \<times> jsvalue \<Rightarrow> js_error + string \<times> jsvalue) nvs
          = map Inr [(''measure_battery'', VNum (Num 85)),
                (''measure_battery_runtime'', VNull), (''alarm_status'', VBool False)]"
    by (rule trans [OF m [symmetric] l])
  then have "nvs = [(''measure_battery'', VNum (Num 85)), (''measure_battery_runtime'', VNull),
                (''alarm_status'', VBool False)]"
    by (rule map_injective) simp
  with o(1,2) h r show ?thesis by auto
qed

text \<open>
  The original claim fails here: \<open>measure_battery_runtime\<close> is in the list, the status
  has no filled value for it, and a write of null is attempted for it.
\<close>

theorem C3_counterexample:
  "''measure_battery_runtime'' \<in> set (capabilityList (parseUPSStatus [''battery.charge'' \<mapsto> ''85''])
        (store_capabilities (initialized_device [''measure_battery'', ''measure_battery_runtime'']
           (Some False) (Some [''measure_battery'', ''measure_battery_runtime'']))))
   \<and> \<not> filled (obj_get (values (parseUPSStatus [''battery.charge'' \<mapsto> ''85''])) ''measure_battery_runtime'')
   \<and> SetCapabilityValue ''measure_battery_runtime'' VNull \<in> set (host_calls (snd (setCapabilities sample_engine
        (parseUPSStatus [''battery.charge'' \<mapsto> ''85''])
        (initialized_device [''measure_battery'', ''measure_battery_runtime'']
           (Some False) (Some [''measure_battery'', ''measure_battery_runtime''])))))"
  by code_simp

subsection \<open>C4\<close>

text \<open>
  Claim C4, as amended. \<open>parseUPSStatus\<close> is a total function of the raw telemetry
  (a string for each variable that is there). A source that is missing or blank
  gives null for \<open>name\<close>, \<open>id\<close>, \<open>status\<close>, \<open>measure_temperature\<close> and the four
  integer fields. An integer field with a filled source is the result of
  \<open>parseInt(s, 10)\<close>, which is \<open>NaN\<close>, not null, exactly when no decimal digit follows
  the leading white space and the optional sign.
\<close>

theorem C4_fields:
  "(\<not> filled (body_get body ''ups.model'') \<longrightarrow>
      obj_get (values (parseUPSStatus body)) ''name'' = VNull)
   \<and> (\<not> filled (body_get body ''ups.serial'') \<longrightarrow>
      obj_get (values (parseUPSStatus body)) ''id'' = VNull)
   \<and> (\<not> filled (body_get body ''ups.status'') \<longrightarrow>
      obj_get (values (parseUPSStatus body)) ''status'' = VNull)
   \<and> (\<not> filled (body_get body ''battery.temperature'') \<longrightarrow>
      obj_get (values (parseUPSStatus body)) ''measure_temperature'' = VNull)
   \<and> obj_get (values (parseUPSStatus body)) ''measure_battery'' =
       (case body ''battery.charge'' of
          None \<Rightarrow> VNull
        | Some s \<Rightarrow> if filled (VStr s) then VNum (parseInt10 s) else VNull)
   \<and> obj_get (values (parseUPSStatus body)) ''measure_battery_runtime'' =
       (case body ''battery.runtime'' of
          None \<Rightarrow> VNull
        | Some s \<Rightarrow> if filled (VStr s) then VNum (parseInt10 s) else VNull)
   \<and> obj_get (values (parseUPSStatus body)) ''measure_voltage'' =
       VObj [(''input'',
                case body ''input.voltage'' of
                  None \<Rightarrow> VNull
                | Some s \<Rightarrow> if filled (VStr s) then VNum (parseInt10 s) else VNull),
             (''output'',
                case body ''output.voltage'' of
                  None \<Rightarrow> VNull
                | Some s \<Rightarrow> if filled (VStr s) then VNum (parseInt10 s) else VNull)]
   \<and> (\<forall>s. parseInt10 s = NaN \<longleftrightarrow>
          takeWhile decimal_digit (snd (strip_sign (dropWhile white_space s))) = [])"
  by (simp add: get_fields get_status int_field_cases [symmetric] parseInt10_NaN [symmetric]
      string_field_cases float_field_cases filled_body_get_cases split: option.splits)

text \<open>The theorem at a concrete input.\<close>

theorem C4_witness:
  "obj_get (values (parseUPSStatus [''battery.charge'' \<mapsto> ''85'', ''input.voltage'' \<mapsto> '' ''])) ''name'' = VNull
   \<and> obj_get (values (parseUPSStatus [''battery.charge'' \<mapsto> ''85'', ''input.voltage'' \<mapsto> '' ''])) ''measure_battery'' = VNum (Num 85)
   \<and> obj_get (values (parseUPSStatus [''battery.charge'' \<mapsto> ''85'', ''input.voltage'' \<mapsto> '' ''])) ''measure_voltage''
        = VObj [(''input'', VNull), (''output'', VNull)]"
  using C4_fields [of "[''battery.charge'' \<mapsto> ''85'', ''input.voltage'' \<mapsto> '' '']"]
  by (simp add: body_get_def filled_def trim_def white_space_def parseInt10_def decimal_digit_def digits_value_def)

text \<open>
  The original claim fails here: \<open>battery.charge\<close> is filled and not an integer, and
  \<open>measure_battery\<close> is \<open>NaN\<close>, not null.
\<close>

theorem C4_counterexample:
  "filled (body_get [''battery.charge'' \<mapsto> ''abc''] ''battery.charge'')
   \<and> obj_get (values (parseUPSStatus [''battery.charge'' \<mapsto> ''abc''])) ''measure_battery'' = VNum NaN
   \<and> obj_get (values (parseUPSStatus [''battery.charge'' \<mapsto> ''abc''])) ''measure_battery'' \<noteq> VNull"
  by (simp add: get_fields int_field_cases body_get_def filled_eval white_space_def parseInt10_def decimal_digit_def)

subsection \<open>C5\<close>

text \<open>
  Claim C5. \<open>alarm_status\<close> is true if and only if \<open>ups.status\<close> is there, is filled
  and does not begin with \<open>OL\<close> (\<open>startsWith\<close>, on the raw string); it is false when
  \<open>ups.status\<close> is absent.
\<close>

theorem C5_alarm_status:
  "obj_get (values (parseUPSStatus body)) ''alarm_status'' =
     VBool (case body ''ups.status'' of
              None \<Rightarrow> False
            | Some s \<Rightarrow> filled (VStr s) \<and> \<not> startsWith s ''OL'')"
  by (rule alarm)

text \<open>The theorem at a concrete input.\<close>

theorem C5_witness:
  "obj_get (values (parseUPSStatus [''ups.status'' \<mapsto> ''OL''])) ''alarm_status'' = VBool False
   \<and> obj_get (values (parseUPSStatus [''ups.status'' \<mapsto> ''OB LB''])) ''alarm_status'' = VBool True
   \<and> obj_get (values (parseUPSStatus Map.empty)) ''alarm_status'' = VBool False"
  using C5_alarm_status [of "[''ups.status'' \<mapsto> ''OL'']"]
    C5_alarm_status [of "[''ups.status'' \<mapsto> ''OB LB'']"]
    C5_alarm_status [of "Map.empty"]
  by (simp add: filled_eval white_space_def startsWith_def)

subsection \<open>C6\<close>

text \<open>
  Claim C6, as amended. For a filled \<open>ups.status\<close> the readable status is the texts of
  its tokens (the pieces between single spaces), in order, joined with a comma and
  a space, with nothing after the last. The text of a token of the table is its
  label. A token that is neither in the table nor the name of a member inherited
  from \<open>Object.prototype\<close> renders as the text \<open>undefined\<close>, not as an empty segment.
\<close>

theorem C6_readable_status:
  "(body ''ups.status'' = Some s \<and> filled (VStr s) \<longrightarrow>
      obj_get (values (parseUPSStatus body)) ''status''
        = VStr (join '', '' (map state_text (split (CHR '' '') s))))
   \<and> (\<forall>word label. map_of STATE_TYPES word = Some label \<longrightarrow> state_text word = label)
   \<and> (\<forall>word. word \<notin> set (map fst STATE_TYPES) \<and> word \<notin> set object_prototype_names \<longrightarrow>
         state_text word = ''undefined'')"
  by (simp add: get_status readableStatus_join state_text_unknown state_text_known)

text \<open>The theorem at a concrete input.\<close>

theorem C6_witness:
  "obj_get (values (parseUPSStatus [''ups.status'' \<mapsto> ''OL CHRG''])) ''status'' = VStr ''Online, Battery Charging''
   \<and> state_text ''FOO'' = ''undefined''"
  using C6_readable_status [of "[''ups.status'' \<mapsto> ''OL CHRG'']" "''OL CHRG''"]
  by (simp add: filled_eval white_space_def state_text_def STATE_TYPES_def object_prototype_names_def)

text \<open>
  The original claim fails here: \<open>FOO\<close> is not in the table; the code renders
  \<open>Online, undefined\<close>, where an empty segment would give \<open>Online, \<close>.
\<close>

theorem C6_counterexample:
  "obj_get (values (parseUPSStatus [''ups.status'' \<mapsto> ''OL FOO''])) ''status'' = VStr ''Online, undefined''
   \<and> readable_spec ''OL FOO'' = ''Online, ''
   \<and> map_of STATE_TYPES ''FOO'' = None"
  by (simp add: get_status filled_eval white_space_def readableStatus_def state_text_def STATE_TYPES_def
      object_prototype_names_def readable_spec_def label_spec_def)

subsection \<open>C7\<close>

text \<open>
  Claim C7. A second \<open>setCapabilities\<close> with the same status (a result of
  \<open>parseUPSStatus\<close>), on the state that the first call left and a live device that
  exposes every capability of the status, calls \<open>addCapability\<close> for nothing and
  leaves the persisted capabilities as they were.
\<close>

theorem C7_second_call:
  assumes "set (capabilities (parseUPSStatus body)) \<subseteq> set live"
  shows "(\<exists>new. host_calls (snd (setCapabilities eng (parseUPSStatus body)
                    ((snd (setCapabilities eng (parseUPSStatus body) d))\<lparr> live_capabilities := live \<rparr>)))
            = host_calls (snd (setCapabilities eng (parseUPSStatus body) d)) @ new
          \<and> (\<forall>c. AddCapability c \<notin> set new))
    \<and> store_capabilities (snd (setCapabilities eng (parseUPSStatus body)
          ((snd (setCapabilities eng (parseUPSStatus body) d))\<lparr> live_capabilities := live \<rparr>)))
        = store_capabilities (snd (setCapabilities eng (parseUPSStatus body) d))"
proof -
  let ?st = "parseUPSStatus body"
  let ?d1 = "(snd (setCapabilities eng ?st d))\<lparr> live_capabilities := live \<rparr>"
  have sub: "set (capabilities ?st) \<subseteq> set (live_capabilities ?d1)"
    using assms by simp
  have "add_dynamic ?st ''measure_battery_voltage'' (add_dynamic ?st ''measure_load'' ?d1) = ?d1"
    by (simp only: not_nullish_dynamic [OF sub])
  with setCapabilities_calls [of eng ?st ?d1]
  have "\<exists>new. host_calls (snd (setCapabilities eng ?st ?d1)) = host_calls ?d1 @ new
          \<and> (\<forall>c. AddCapability c \<notin> set new)"
    by simp
  then show ?thesis
    by (simp add: setCapabilities_store_capabilities)
qed

text \<open>The theorem at a concrete input.\<close>

theorem C7_witness:
  "set (capabilities (parseUPSStatus [''battery.charge'' \<mapsto> ''85'', ''ups.load'' \<mapsto> ''20'']))
     \<subseteq> set [''measure_battery'', ''alarm_status'', ''measure_load'']
   \<and> host_calls (snd (setCapabilities sample_engine
        (parseUPSStatus [''battery.charge'' \<mapsto> ''85'', ''ups.load'' \<mapsto> ''20''])
        (initialized_device [''measure_battery'', ''alarm_status''] (Some False)
           (Some [''measure_battery'', ''alarm_status'']))))
      = [AddCapability ''measure_load'',
         SetCapabilityValue ''measure_battery'' (VNum (Num 85)),
         SetCapabilityValue ''alarm_status'' (VBool False),
         SetCapabilityValue ''measure_load'' (VNum (Num 20))]
   \<and> (\<exists>new. host_calls (snd (setCapabilities sample_engine
          (parseUPSStatus [''battery.charge'' \<mapsto> ''85'', ''ups.load'' \<mapsto> ''20''])
          ((snd (setCapabilities sample_engine
             (parseUPSStatus [''battery.charge'' \<mapsto> ''85'', ''ups.load'' \<mapsto> ''20''])
             (initialized_device [''measure_battery'', ''alarm_status''] (Some False)
                (Some [''measure_battery'', ''alarm_status'']))))
           \<lparr> live_capabilities := [''measure_battery'', ''alarm_status'', ''measure_load''] \<rparr>)))
        = [AddCapability ''measure_load'',
           SetCapabilityValue ''measure_battery'' (VNum (Num 85)),
           SetCapabilityValue ''alarm_status'' (VBool False),
           SetCapabilityValue ''measure_load'' (VNum (Num 20))] @ new
        \<and> (\<forall>c. AddCapability c \<notin> set new))"
proof -
  let ?st = "parseUPSStatus [''battery.charge'' \<mapsto> ''85'', ''ups.load'' \<mapsto> ''20'']"
  let ?d = "initialized_device [''measure_battery'', ''alarm_status''] (Some False)
              (Some [''measure_battery'', ''alarm_status''])"
  have h: "set (capabilities ?st) \<subseteq> set [''measure_battery'', ''alarm_status'', ''measure_load'']"
    by code_simp
  have f: "host_calls (snd (setCapabilities sample_engine ?st ?d))
      = [AddCapability ''measure_load'',
         SetCapabilityValue ''measure_battery'' (VNum (Num 85)),
         SetCapabilityValue ''alarm_status'' (VBool False),
         SetCapabilityValue ''measure_load'' (VNum (Num 20))]"
    by code_simp
  from C7_second_call [OF h, of sample_engine ?d] f h show ?thesis
    by simp
qed

subsection \<open>C8\<close>

text \<open>
  Claim C8. When \<open>ups.load\<close> is absent or blank, \<open>values\<close> has no key \<open>measure_load\<close>
  and \<open>capabilities\<close> does not list it; likewise for \<open>battery.voltage\<close> and
  \<open>measure_battery_voltage\<close>. When the source is filled the key is in \<open>values\<close>.
\<close>

theorem C8_optional_fields:
  "(\<not> filled (body_get body ''ups.load'') \<longrightarrow>
      ''measure_load'' \<notin> set (map fst (values (parseUPSStatus body))) \<and>
      ''measure_load'' \<notin> set (capabilities (parseUPSStatus body)))
   \<and> (\<not> filled (body_get body ''battery.voltage'') \<longrightarrow>
      ''measure_battery_voltage'' \<notin> set (map fst (values (parseUPSStatus body))) \<and>
      ''measure_battery_voltage'' \<notin> set (capabilities (parseUPSStatus body)))
   \<and> (filled (body_get body ''ups.load'') \<longrightarrow>
        ''measure_load'' \<in> set (map fst (values (parseUPSStatus body))))
   \<and> (filled (body_get body ''battery.voltage'') \<longrightarrow>
        ''measure_battery_voltage'' \<in> set (map fst (values (parseUPSStatus body))))"
  by (simp add: keys_parseUPSStatus measure_load_capability measure_battery_voltage_capability)

text \<open>The theorem at a concrete input.\<close>

theorem C8_witness:
  "\<not> filled (body_get [''battery.charge'' \<mapsto> ''85''] ''ups.load'')
   \<and> \<not> filled (body_get [''battery.charge'' \<mapsto> ''85''] ''battery.voltage'')
   \<and> ''measure_load'' \<notin> set (map fst (values (parseUPSStatus [''battery.charge'' \<mapsto> ''85''])))
   \<and> ''measure_battery_voltage'' \<notin> set (map fst (values (parseUPSStatus [''battery.charge'' \<mapsto> ''85''])))
   \<and> ''measure_load'' \<notin> set (capabilities (parseUPSStatus [''battery.charge'' \<mapsto> ''85'']))
   \<and> ''measure_battery_voltage'' \<notin> set (capabilities (parseUPSStatus [''battery.charge'' \<mapsto> ''85'']))
   \<and> filled (body_get [''ups.load'' \<mapsto> ''20'', ''battery.voltage'' \<mapsto> ''13.6''] ''ups.load'')
   \<and> filled (body_get [''ups.load'' \<mapsto> ''20'', ''battery.voltage'' \<mapsto> ''13.6''] ''battery.voltage'')
   \<and> ''measure_load'' \<in> set (map fst (values (parseUPSStatus [''ups.load'' \<mapsto> ''20'', ''battery.voltage'' \<mapsto> ''13.6''])))
   \<and> ''measure_battery_voltage'' \<in> set (map fst (values (parseUPSStatus [''ups.load'' \<mapsto> ''20'', ''battery.voltage'' \<mapsto> ''13.6''])))"
proof -
  have a: "\<not> filled (body_get [''battery.charge'' \<mapsto> ''85''] ''ups.load'')"
          "\<not> filled (body_get [''battery.charge'' \<mapsto> ''85''] ''battery.voltage'')"
    by (simp_all add: body_get_def filled_def)
  have b: "filled (body_get [''ups.load'' \<mapsto> ''20'', ''battery.voltage'' \<mapsto> ''13.6''] ''ups.load'')"
          "filled (body_get [''ups.load'' \<mapsto> ''20'', ''battery.voltage'' \<mapsto> ''13.6''] ''battery.voltage'')"
    by (simp_all add: body_get_def filled_eval white_space_def)
  show ?thesis
    using a b C8_optional_fields [of "[''battery.charge'' \<mapsto> ''85'']"]
      C8_optional_fields [of "[''ups.load'' \<mapsto> ''20'', ''battery.voltage'' \<mapsto> ''13.6'']"]
    by blast
qed

subsection \<open>C9\<close>

text \<open>
  Claim C9. No error leaves \<open>getDeviceData\<close>, and among the calls it makes to the
  connection there is exactly one \<open>close\<close>, whatever \<open>start\<close>, \<open>SetUsername\<close>,
  \<open>SetPassword\<close> and \<open>GetUPSVars\<close> do. When the body of the \<open>try\<close> completes the
  device is available; when it ends with an error, as it does when one of the four
  calls fails, the device is unavailable with the reason built from that error.
\<close>

theorem C9_tick:
  "fst (getDeviceData eng n d) = None
   \<and> (\<exists>new. nut_calls (snd (getDeviceData eng n d)) = nut_calls d @ new
          \<and> count_list new Close = 1)
   \<and> (fst (try_body eng n d) = None \<longrightarrow> available (snd (getDeviceData eng n d)) = Available)
   \<and> (\<forall>e. fst (try_body eng n d) = Some e \<longrightarrow>
          available (snd (getDeviceData eng n d))
            = Unavailable (''Connection error: '' @ message_or_err e))
   \<and> (\<forall>e. start_result n = Some e
           \<or> start_result n = None \<and> SetUsername_result n = Some e
           \<or> start_result n = None \<and> SetUsername_result n = None \<and> SetPassword_result n = Some e
           \<or> start_result n = None \<and> SetUsername_result n = None \<and> SetPassword_result n = None
              \<and> GetUPSVars_result n = Inl e
         \<longrightarrow> fst (try_body eng n d) = Some e)"
proof -
  from try_body_nut_calls [of eng n d] obtain tr where
    tr: "nut_calls (snd (try_body eng n d)) = nut_calls d @ tr" "Close \<notin> set tr"
    by blast
  have "nut_calls (snd (getDeviceData eng n d)) = nut_calls d @ (tr @ [Close])"
    by (simp add: getDeviceData_unfold tr(1) split: option.splits)
  moreover have "count_list (tr @ [Close]) Close = 1"
    using tr(2) by (simp add: count_list_0_iff)
  ultimately have "\<exists>new. nut_calls (snd (getDeviceData eng n d)) = nut_calls d @ new
          \<and> count_list new Close = 1"
    by blast
  then show ?thesis
    by (auto simp: getDeviceData_unfold try_body_available try_body_failure)
qed

text \<open>The theorem at a concrete input.\<close>

theorem C9_witness:
  "fst (try_body sample_engine
          \<lparr> start_result = None, SetUsername_result = None, SetPassword_result = None,
            GetUPSVars_result = Inl (Error ''Error'' ''DATA-STALE'') \<rparr>
          (initialized_device [''measure_battery''] (Some False) (Some [''measure_battery''])))
     = Some (Error ''Error'' ''DATA-STALE'')
   \<and> nut_calls (snd (getDeviceData sample_engine
          \<lparr> start_result = None, SetUsername_result = None, SetPassword_result = None,
            GetUPSVars_result = Inl (Error ''Error'' ''DATA-STALE'') \<rparr>
          (initialized_device [''measure_battery''] (Some False) (Some [''measure_battery'']))))
       = [Start, SetUsername, SetPassword, GetUPSVars, Close]
   \<and> available (snd (getDeviceData sample_engine
          \<lparr> start_result = None, SetUsername_result = None, SetPassword_result = None,
            GetUPSVars_result = Inl (Error ''Error'' ''DATA-STALE'') \<rparr>
          (initialized_device [''measure_battery''] (Some False) (Some [''measure_battery'']))))
       = Unavailable ''Connection error: DATA-STALE''
   \<and> fst (try_body sample_engine
          \<lparr> start_result = None, SetUsername_result = None, SetPassword_result = None,
            GetUPSVars_result = Inr [''battery.charge'' \<mapsto> ''85''] \<rparr>
          (initialized_device [''measure_battery''] (Some False) (Some [''measure_battery''])))
     = None
   \<and> available (snd (getDeviceData sample_engine
          \<lparr> start_result = None, SetUsername_result = None, SetPassword_result = None,
            GetUPSVars_result = Inr [''battery.charge'' \<mapsto> ''85''] \<rparr>
          (initialized_device [''measure_battery''] (Some False) (Some [''measure_battery'']))))
       = Available"
proof -
  let ?d = "initialized_device [''measure_battery''] (Some False) (Some [''measure_battery''])"
  let ?bad = "\<lparr> start_result = None, SetUsername_result = None, SetPassword_result = None,
            GetUPSVars_result = Inl (Error ''Error'' ''DATA-STALE'') \<rparr>"
  let ?good = "\<lparr> start_result = None, SetUsername_result = None, SetPassword_result = None,
            GetUPSVars_result = Inr [''battery.charge'' \<mapsto> ''85''] \<rparr>"
  have b: "fst (try_body sample_engine ?bad ?d) = Some (Error ''Error'' ''DATA-STALE'')"
    by (simp add: try_body_def Let_def)
  have g: "fst (try_body sample_engine ?good ?d) = None"
    by code_simp
  have n: "nut_calls (snd (getDeviceData sample_engine ?bad ?d))
       = [Start, SetUsername, SetPassword, GetUPSVars, Close]"
    by code_simp
  from C9_tick [of sample_engine ?bad ?d] b
  have "available (snd (getDeviceData sample_engine ?bad ?d))
          = Unavailable (''Connection error: '' @ message_or_err (Error ''Error'' ''DATA-STALE''))"
    by blast
  moreover from C9_tick [of sample_engine ?good ?d] g
  have "available (snd (getDeviceData sample_engine ?good ?d)) = Available"
    by blast
  ultimately show ?thesis using b g n by simp
qed

subsection \<open>C10\<close>

text \<open>
  Claim C10. With \<open>first_run\<close> true, the persisted \<open>capabilities\<close> unset and a live
  device that exposes a capability, \<open>setCapabilities\<close> throws a \<open>TypeError\<close>: every
  capability the device exposed is still exposed, \<open>first_run\<close> is still true, and
  among the calls made to the host there is no removal, no store write and no value
  write.
\<close>

theorem C10_throws:
  assumes "store_first_run d = Some True" "store_capabilities d = None"
    "live_capabilities d \<noteq> []"
  shows "(\<exists>message. fst (setCapabilities eng st d) = Some (Error ''TypeError'' message))
    \<and> set (live_capabilities d) \<subseteq> set (live_capabilities (snd (setCapabilities eng st d)))
    \<and> store_first_run (snd (setCapabilities eng st d)) = Some True
    \<and> (\<exists>new. host_calls (snd (setCapabilities eng st d)) = host_calls d @ new
          \<and> (\<forall>c. RemoveCapability c \<notin> set new)
          \<and> (\<forall>b. SetStoreValue_first_run b \<notin> set new)
          \<and> (\<forall>n v. SetCapabilityValue n v \<notin> set new))"
proof -
  let ?d2 = "add_dynamic st ''measure_battery_voltage'' (add_dynamic st ''measure_load'' d)"
  have eq: "setCapabilities eng st d =
     (Some (Error ''TypeError'' (type_error_message eng VUndefined ''includes'')), ?d2)"
    using assms by (rule setCapabilities_throws)
  obtain adds where adds: "host_calls ?d2 = host_calls d @ adds"
      "\<forall>x \<in> set adds. \<exists>c. x = AddCapability c"
    by (auto simp: add_dynamic_calls)
  have "\<exists>new. host_calls ?d2 = host_calls d @ new
          \<and> (\<forall>c. RemoveCapability c \<notin> set new)
          \<and> (\<forall>b. SetStoreValue_first_run b \<notin> set new)
          \<and> (\<forall>n v. SetCapabilityValue n v \<notin> set new)"
    using adds by (intro exI [of _ adds]) auto
  moreover have "set (live_capabilities d) \<subseteq> set (live_capabilities ?d2)"
    by (auto simp: add_dynamic_live)
  ultimately show ?thesis
    using assms(1) by (simp add: eq)
qed

text \<open>The theorem at a concrete input.\<close>

theorem C10_witness:
  "store_first_run (initialized_device [''measure_battery''] (Some True) None) = Some True
   \<and> store_capabilities (initialized_device [''measure_battery''] (Some True) None) = None
   \<and> live_capabilities (initialized_device [''measure_battery''] (Some True) None) \<noteq> []
   \<and> setCapabilities sample_engine (parseUPSStatus [''battery.charge'' \<mapsto> ''85''])
        (initialized_device [''measure_battery''] (Some True) None)
      = (Some (Error ''TypeError'' ''Cannot read properties of undefined''),
         initialized_device [''measure_battery''] (Some True) None)"
proof -
  let ?d = "initialized_device [''measure_battery''] (Some True) None"
  let ?st = "parseUPSStatus [''battery.charge'' \<mapsto> ''85'']"
  have h: "store_first_run ?d = Some True" "store_capabilities ?d = None" "live_capabilities ?d \<noteq> []"
    by (simp_all add: initialized_device_def)
  from C10_throws [OF h, of sample_engine ?st]
  have "\<exists>message. fst (setCapabilities sample_engine ?st ?d) = Some (Error ''TypeError'' message)"
    by blast
  moreover have "setCapabilities sample_engine ?st ?d
      = (Some (Error ''TypeError'' ''Cannot read properties of undefined''), ?d)"
    by code_simp
  ultimately show ?thesis using h by simp
qed

end
